theory Spec2Isabelle
  imports Complex_Main "HOL-Library.Log_Nat"
begin

section \<open>Data model\<close>

subsection \<open>Numbers\<close>

text \<open>
  A JavaScript Number is an IEEE-754 double. A finite double is modelled by its value, a
  rational; \<open>fl\<close> rounds a rational to the nearest double, ties to the even significand
  (53 bits, least exponent -1074), so that the sum of two doubles in the program is
  \<open>fl (a + b)\<close> and their difference \<open>fl (a - b)\<close>. Negation and comparison of doubles are
  exact. \<open>ilog2 q\<close> is, for \<open>0 < q\<close>, the \<open>e\<close> with \<open>2 ^ e \<le> q < 2 ^ (e + 1)\<close>.

  Infinity and NaN are not modelled: the validators refuse an amount of 1e21 or more, and
  the sum of a finite double and a smaller amount is finite.
\<close>

definition pow2 :: "int \<Rightarrow> rat" where
  "pow2 k = (if 0 \<le> k then 2 ^ nat k else 1 / 2 ^ nat (- k))"

definition ilog2 :: "rat \<Rightarrow> int" where
  "ilog2 q =
     (if 1 \<le> q then bitlen \<lfloor>q\<rfloor> - 1
      else (let j = bitlen \<lfloor>1 / q\<rfloor> - 1 in if q * 2 ^ nat j = 1 then - j else - j - 1))"

definition round_half_even :: "rat \<Rightarrow> int" where
  "round_half_even r =
     (let n = \<lfloor>r\<rfloor>; f = r - of_int n in
      if f < 1 / 2 then n else if 1 / 2 < f then n + 1 else if even n then n else n + 1)"

definition fl :: "rat \<Rightarrow> rat" where
  "fl q =
     (if q = 0 then 0
      else (let a = \<bar>q\<bar>; e = max (ilog2 a) (- 1022); u = pow2 (e - 52) in
            sgn q * of_int (round_half_even (a / u)) * u))"

text \<open>A rational is the value of a double when rounding leaves it as it is.\<close>

definition representable :: "rat \<Rightarrow> bool" where
  "representable q = (fl q = q)"

subsection \<open>Identifiers\<close>

text \<open>
  An ObjectId is modelled by its 24 lower-case hexadecimal digits. A request gives an id
  as a string; a query casts it to an ObjectId: a string of 24 hexadecimal digits, in
  either letter case, is cast to the ObjectId with these digits, and for any other string
  the query throws a CastError. (Older drivers also cast a string of 12 characters; the
  results below are about strings of 24 hexadecimal digits, and the two uncastable ids
  they use have 3 and 24 characters.) The caller's \<open>userId\<close> comes from the verified
  token and is an ObjectId already.
\<close>

type_synonym oid = string

definition isHexDigit :: "char \<Rightarrow> bool" where
  "isHexDigit c = (c \<in> set ''0123456789abcdefABCDEF'')"

definition toLowerCase :: "char \<Rightarrow> char" where
  "toLowerCase c =
     (case map_of (zip ''ABCDEF'' ''abcdef'') c of None \<Rightarrow> c | Some l \<Rightarrow> l)"

definition castObjectId :: "string \<Rightarrow> oid option" where
  "castObjectId s =
     (if length s = 24 \<and> list_all isHexDigit s then Some (map toLowerCase s) else None)"

text \<open>
  Modelled from the spec: \<^verbatim>\<open>models/account.js\<close> is not among the sources. The
  specification gives an Account the fields id, userId (the owner) and balance; the
  handlers read \<^verbatim>\<open>_id\<close>, \<^verbatim>\<open>userId\<close> and \<^verbatim>\<open>balance\<close> and write
  \<^verbatim>\<open>balance\<close> only. The creation time, which no handler reads, is left out.
\<close>

record account =
  acc_id :: oid
  acc_userId :: oid
  balance :: rat

text \<open>
  \<^verbatim>\<open>models/transaction.js\<close>: the fields a handler sets. The enum of the schema's
  \<^verbatim>\<open>type\<close> field is a datatype. The store-generated \<^verbatim>\<open>_id\<close> and timestamps and the
  optional description, which no handler sets, are left out.
\<close>

datatype txn_type = Deposit | Withdrawal | Transfer

record transaction =
  txn_userId :: oid
  txn_accountId :: oid
  txn_type :: txn_type
  txn_amount :: rat

text \<open>
  Modelled from the spec: \<^verbatim>\<open>models/user.js\<close> is not among the sources. The
  specification gives a User the fields username, email and a hashed credential;
  \<^verbatim>\<open>routes/users.js\<close> sets \<^verbatim>\<open>username\<close>, \<^verbatim>\<open>email\<close> and \<^verbatim>\<open>hashedPassword\<close>.
\<close>

record user =
  usr_username :: string
  usr_email :: string
  usr_hashedPassword :: string

text \<open>The record store: one collection of documents per model, in insertion order.\<close>

record db =
  accounts :: "account list"
  transactions :: "transaction list"
  users :: "user list"

section \<open>Responses\<close>

datatype payload =
    Message string
  | ErrorList "string list"
  | AccountDoc account
  | TransferDocs account account
  | Registered string string

text \<open>
  A response is the helper of \<^verbatim>\<open>util/response\<close> that the handler called, with the
  body it passed.
\<close>

datatype response =
    successRes payload
  | createdRes payload
  | clientErrorRes payload
  | unauthorizedRes payload
  | notFoundRes payload
  | conflictErrorRes payload
  | serverErrorRes payload

text \<open>
  Modelled from the spec: \<^verbatim>\<open>util/response.js\<close> is not among the sources. The HTTP
  status of each helper is the one the specification's interface contract and error
  table give: 200 for success, 201 for created, 400 for a validation error (insufficient
  funds included), 401 unauthorized, 404 not found, 409 conflict, 500 internal.
\<close>

fun status :: "response \<Rightarrow> nat" where
  "status (successRes _) = 200"
| "status (createdRes _) = 201"
| "status (clientErrorRes _) = 400"
| "status (unauthorizedRes _) = 401"
| "status (notFoundRes _) = 404"
| "status (conflictErrorRes _) = 409"
| "status (serverErrorRes _) = 500"

fun is_success :: "response \<Rightarrow> bool" where
  "is_success (successRes _) = True"
| "is_success _ = False"

text \<open>What every \<^verbatim>\<open>catch\<close> block of the routes answers.\<close>

definition internal_error :: response where
  "internal_error = serverErrorRes (Message ''Internal server error'')"

section \<open>Store operations\<close>

text \<open>
  A store call either returns or throws. Each handler takes a function \<open>up\<close> that says,
  for the k-th store call the handler makes (counted from 0, in program order), whether
  the call returns (\<open>True\<close>) or throws.
\<close>

datatype exn = StoreError | CastError | ReferenceError

text \<open>
  \<^verbatim>\<open>Account.findOne({ _id: rawId, ... })\<close>: the query casts \<open>rawId\<close> to an ObjectId, and
  throws when it cannot; otherwise it returns the first document with that \<^verbatim>\<open>_id\<close> that
  satisfies the rest of the filter, \<open>p\<close>, or null.
\<close>

definition Account_findOne ::
  "bool \<Rightarrow> string \<Rightarrow> (account \<Rightarrow> bool) \<Rightarrow> db \<Rightarrow> exn + account option" where
  "Account_findOne returns rawId p d =
     (case castObjectId rawId of
        None \<Rightarrow> Inl CastError
      | Some i \<Rightarrow>
          if returns then Inr (find (\<lambda>a. acc_id a = i \<and> p a) (accounts d))
          else Inl StoreError)"

text \<open>
  \<^verbatim>\<open>doc.save()\<close> on a loaded account whose balance was assigned. A document knows the
  value it was loaded with: when the assigned balance differs from it, the stored
  document with the same \<^verbatim>\<open>_id\<close> gets the document's balance (its other fields are not
  written); when the assigned balance equals the loaded one, the path is not modified and
  nothing is written. No handler deletes an account, so a loaded document always has its
  stored one.
\<close>

fun set_balance :: "oid \<Rightarrow> rat \<Rightarrow> account list \<Rightarrow> account list" where
  "set_balance i v [] = []"
| "set_balance i v (a # as) =
     (if acc_id a = i then a\<lparr>balance := v\<rparr> # as else a # set_balance i v as)"

definition write_if_modified :: "oid \<Rightarrow> rat \<Rightarrow> rat \<Rightarrow> account list \<Rightarrow> account list" where
  "write_if_modified i loaded assigned xs =
     (if assigned = loaded then xs else set_balance i assigned xs)"

definition Account_save :: "bool \<Rightarrow> account \<Rightarrow> account \<Rightarrow> db \<Rightarrow> exn + db" where
  "Account_save returns loaded doc d =
     (if returns
      then Inr (d\<lparr>accounts :=
                   write_if_modified (acc_id doc) (balance loaded) (balance doc) (accounts d)\<rparr>)
      else Inl StoreError)"

text \<open>\<^verbatim>\<open>new Transaction({...}).save()\<close>: the document is appended to the collection.\<close>

definition Transaction_save :: "bool \<Rightarrow> transaction \<Rightarrow> db \<Rightarrow> exn + db" where
  "Transaction_save returns t d =
     (if returns then Inr (d\<lparr>transactions := transactions d @ [t]\<rparr>) else Inl StoreError)"

text \<open>Reading the store as an observer does: the account with a given id, and its balance.\<close>

definition account_by_id :: "db \<Rightarrow> oid \<Rightarrow> account option" where
  "account_by_id d i = find (\<lambda>a. acc_id a = i) (accounts d)"

definition balance_of :: "db \<Rightarrow> oid \<Rightarrow> rat option" where
  "balance_of d i = map_option balance (account_by_id d i)"

text \<open>\<^verbatim>\<open>_id\<close> is the primary key of a collection.\<close>

definition unique_ids :: "db \<Rightarrow> bool" where
  "unique_ids d = distinct (map acc_id (accounts d))"

text \<open>An account exists and its stored balance is not negative.\<close>

definition solvent :: "db \<Rightarrow> oid \<Rightarrow> bool" where
  "solvent d i = (case balance_of d i of None \<Rightarrow> False | Some b \<Rightarrow> 0 \<le> b)"

section \<open>Request validation\<close>

text \<open>
  The express-validator chains in front of each handler; \<^verbatim>\<open>errors.array()\<close> is the list
  of the messages of the validators that failed.

  \<^verbatim>\<open>isMongoId\<close> accepts the strings of 24 characters that \<^verbatim>\<open>isHexadecimal\<close> accepts:
  hexadecimal digits, after an optional prefix \<^verbatim>\<open>0x\<close> or \<^verbatim>\<open>0h\<close> in either letter case.
  So it also accepts strings that a query cannot cast.
\<close>

definition isHexadecimal :: "string \<Rightarrow> bool" where
  "isHexadecimal s =
     ((s \<noteq> [] \<and> list_all isHexDigit s) \<or>
      (take 2 s \<in> set [''0x'', ''0X'', ''0h'', ''0H''] \<and>
       drop 2 s \<noteq> [] \<and> list_all isHexDigit (drop 2 s)))"

definition isMongoId :: "string \<Rightarrow> bool" where
  "isMongoId s = (isHexadecimal s \<and> length s = 24)"

text \<open>
  The amount is the JSON number of the request body (the OpenAPI block of each route
  declares it of type number), parsed to a double. The validators test the string
  \<^verbatim>\<open>String(amount)\<close>: \<^verbatim>\<open>isNumeric\<close> accepts decimal digits with an optional sign and
  an optional decimal point, and no exponent. \<^verbatim>\<open>String\<close> writes a double \<open>x\<close> without an
  exponent exactly when \<open>x\<close> is 0 or \<open>\<bar>x\<bar>\<close> is at least the double 1e-6 and less than 1e21.
  \<^verbatim>\<open>isFloat({ gt: 0 })\<close> accepts every such string, exponent or not, whose value is
  greater than 0. A body whose amount is a JSON string is not covered here.
\<close>

definition isNumeric :: "rat \<Rightarrow> bool" where
  "isNumeric x = (x = 0 \<or> (fl (1 / 10 ^ 6) \<le> \<bar>x\<bar> \<and> \<bar>x\<bar> < 10 ^ 21))"

definition check_accountId :: "string \<Rightarrow> string list" where
  "check_accountId accountId =
     (if accountId = [] then [''Account ID is required''] else []) @
     (if \<not> isMongoId accountId then [''Invalid account ID''] else [])"

definition check_amount :: "rat \<Rightarrow> string list" where
  "check_amount amount =
     (if \<not> isNumeric amount then [''Amount must be a number''] else []) @
     (if \<not> 0 < amount then [''Amount must be greater than 0''] else [])"

definition check_receiverAccountId :: "string \<Rightarrow> string list" where
  "check_receiverAccountId receiverAccountId =
     (if receiverAccountId = [] then [''Receiver account number is required''] else [])"

section \<open>Handlers of routes/accounts.js\<close>

text \<open>
  Each handler takes the authenticated caller's \<open>userId\<close> (what \<^verbatim>\<open>authenticateToken\<close>
  left in \<^verbatim>\<open>req.user\<close>), the path and body parameters and the store, and returns the
  response with the store as the request leaves it. An exception thrown inside the
  \<^verbatim>\<open>try\<close> block is answered by the \<^verbatim>\<open>catch\<close> block; what was written before stays.
\<close>

text \<open>\<^verbatim>\<open>router.post('/:accountId/deposit')\<close>\<close>

definition deposit :: "(nat \<Rightarrow> bool) \<Rightarrow> oid \<Rightarrow> oid \<Rightarrow> rat \<Rightarrow> db \<Rightarrow> response \<times> db" where
  "deposit up userId accountId amount d =
     (let errors = check_accountId accountId @ check_amount amount in
      if errors \<noteq> [] then (clientErrorRes (ErrorList errors), d)
      else
        case Account_findOne (up 0) accountId (\<lambda>a. acc_userId a = userId) d of
          Inl e \<Rightarrow> (internal_error, d)
        | Inr None \<Rightarrow> (notFoundRes (Message ''Account not found''), d)
        | Inr (Some loaded) \<Rightarrow>
            (let account = loaded\<lparr>balance := fl (balance loaded + amount)\<rparr> in
             case Account_save (up 1) loaded account d of
               Inl e \<Rightarrow> (internal_error, d)
             | Inr d1 \<Rightarrow>
                 (case Transaction_save (up 2)
                         \<lparr>txn_userId = userId, txn_accountId = acc_id account,
                          txn_type = Deposit, txn_amount = amount\<rparr> d1 of
                    Inl e \<Rightarrow> (internal_error, d1)
                  | Inr d2 \<Rightarrow> (successRes (AccountDoc account), d2))))"

text \<open>\<^verbatim>\<open>router.post('/:accountId/withdraw')\<close>\<close>

definition withdraw :: "(nat \<Rightarrow> bool) \<Rightarrow> oid \<Rightarrow> oid \<Rightarrow> rat \<Rightarrow> db \<Rightarrow> response \<times> db" where
  "withdraw up userId accountId amount d =
     (let errors = check_accountId accountId @ check_amount amount in
      if errors \<noteq> [] then (clientErrorRes (ErrorList errors), d)
      else
        case Account_findOne (up 0) accountId (\<lambda>a. acc_userId a = userId) d of
          Inl e \<Rightarrow> (internal_error, d)
        | Inr None \<Rightarrow> (notFoundRes (Message ''Account not found''), d)
        | Inr (Some loaded) \<Rightarrow>
            if balance loaded < amount then (clientErrorRes (Message ''Insufficient funds''), d)
            else
              (let account = loaded\<lparr>balance := fl (balance loaded - amount)\<rparr> in
               case Account_save (up 1) loaded account d of
                 Inl e \<Rightarrow> (internal_error, d)
               | Inr d1 \<Rightarrow>
                   (case Transaction_save (up 2)
                           \<lparr>txn_userId = userId, txn_accountId = acc_id account,
                            txn_type = Withdrawal, txn_amount = amount\<rparr> d1 of
                      Inl e \<Rightarrow> (internal_error, d1)
                    | Inr d2 \<Rightarrow> (successRes (AccountDoc account), d2))))"

text \<open>
  \<^verbatim>\<open>router.post('/:accountId/transfer')\<close>. Both accounts are loaded before either is
  tested; the sender and the receiver are two documents even when they are loaded from
  the same stored account, and each is saved on its own.
\<close>

definition transfer ::
  "(nat \<Rightarrow> bool) \<Rightarrow> oid \<Rightarrow> oid \<Rightarrow> oid \<Rightarrow> rat \<Rightarrow> db \<Rightarrow> response \<times> db" where
  "transfer up userId accountId receiverAccountId amount d =
     (let errors = check_accountId accountId @ check_receiverAccountId receiverAccountId
                   @ check_amount amount in
      if errors \<noteq> [] then (clientErrorRes (ErrorList errors), d)
      else
        case Account_findOne (up 0) accountId (\<lambda>a. acc_userId a = userId) d of
          Inl e \<Rightarrow> (internal_error, d)
        | Inr senderLoaded \<Rightarrow>
       (case Account_findOne (up 1) receiverAccountId (\<lambda>a. True) d of
          Inl e \<Rightarrow> (internal_error, d)
        | Inr receiverLoaded \<Rightarrow>
       (case senderLoaded of
          None \<Rightarrow> (notFoundRes (Message ''Sender account not found''), d)
        | Some sender0 \<Rightarrow>
       (case receiverLoaded of
          None \<Rightarrow> (notFoundRes (Message ''Receiver account not found''), d)
        | Some receiver0 \<Rightarrow>
            if balance sender0 < amount then (clientErrorRes (Message ''Insufficient funds''), d)
            else
              (let senderAccount = sender0\<lparr>balance := fl (balance sender0 - amount)\<rparr>;
                   receiverAccount = receiver0\<lparr>balance := fl (balance receiver0 + amount)\<rparr> in
               case Account_save (up 2) sender0 senderAccount d of
                 Inl e \<Rightarrow> (internal_error, d)
               | Inr d1 \<Rightarrow>
              (case Account_save (up 3) receiver0 receiverAccount d1 of
                 Inl e \<Rightarrow> (internal_error, d1)
               | Inr d2 \<Rightarrow>
              (case Transaction_save (up 4)
                      \<lparr>txn_userId = userId, txn_accountId = acc_id senderAccount,
                       txn_type = Transfer, txn_amount = - amount\<rparr> d2 of
                 Inl e \<Rightarrow> (internal_error, d2)
               | Inr d3 \<Rightarrow>
              (case Transaction_save (up 5)
                      \<lparr>txn_userId = acc_userId receiverAccount,
                       txn_accountId = acc_id receiverAccount,
                       txn_type = Transfer, txn_amount = amount\<rparr> d3 of
                 Inl e \<Rightarrow> (internal_error, d3)
               | Inr d4 \<Rightarrow>
                   (successRes (TransferDocs senderAccount receiverAccount), d4)))))))))"

text \<open>
  Requests processed one after the other, each completing before the next starts: every
  request comes with the behaviour of the store during it.
\<close>

datatype request =
    DepositReq oid oid rat
  | WithdrawReq oid oid rat
  | TransferReq oid oid oid rat

fun handle :: "(nat \<Rightarrow> bool) \<Rightarrow> request \<Rightarrow> db \<Rightarrow> response \<times> db" where
  "handle up (DepositReq userId accountId amount) d = deposit up userId accountId amount d"
| "handle up (WithdrawReq userId accountId amount) d = withdraw up userId accountId amount d"
| "handle up (TransferReq userId accountId receiverAccountId amount) d =
     transfer up userId accountId receiverAccountId amount d"

fun run :: "((nat \<Rightarrow> bool) \<times> request) list \<Rightarrow> db \<Rightarrow> response list \<times> db" where
  "run [] d = ([], d)"
| "run ((up, rq) # rest) d =
     (case handle up rq d of (r, d1) \<Rightarrow>
        (case run rest d1 of (rs, d2) \<Rightarrow> (r # rs, d2)))"

section \<open>The registration handler of routes/users.js\<close>

definition User_findOne :: "bool \<Rightarrow> (user \<Rightarrow> bool) \<Rightarrow> db \<Rightarrow> exn + user option" where
  "User_findOne returns p d = (if returns then Inr (find p (users d)) else Inl StoreError)"

text \<open>\<^verbatim>\<open>new User({...}).save()\<close>: the document is appended to the collection.\<close>

definition User_save :: "bool \<Rightarrow> user \<Rightarrow> db \<Rightarrow> exn + db" where
  "User_save returns u d =
     (if returns then Inr (d\<lparr>users := users d @ [u]\<rparr>) else Inl StoreError)"

text \<open>
  The names that \<^verbatim>\<open>routes/users.js\<close> binds from \<^verbatim>\<open>util/response\<close>, as its
  \<^verbatim>\<open>require\<close> line lists them. Calling a name that the module does not bind throws a
  ReferenceError.
\<close>

definition users_js_scope :: "string \<rightharpoonup> (payload \<Rightarrow> response)" where
  "users_js_scope =
     [''successRes'' \<mapsto> successRes, ''unauthorizedRes'' \<mapsto> unauthorizedRes,
      ''clientErrorRes'' \<mapsto> clientErrorRes, ''conflictErrorRes'' \<mapsto> conflictErrorRes,
      ''serverErrorRes'' \<mapsto> serverErrorRes]"

definition call :: "(string \<rightharpoonup> (payload \<Rightarrow> response)) \<Rightarrow> string \<Rightarrow> payload \<Rightarrow> exn + response" where
  "call scope name body =
     (case scope name of None \<Rightarrow> Inl ReferenceError | Some helper \<Rightarrow> Inr (helper body))"

text \<open>A number appended to a string: its decimal digits.\<close>

fun decimal :: "nat \<Rightarrow> string" where
  "decimal n =
     (if n < 10 then [''0123456789'' ! n]
      else decimal (n div 10) @ [''0123456789'' ! (n mod 10)])"

declare decimal.simps [simp del]

text \<open>
  \<^verbatim>\<open>Math.floor(100 + Math.random() * 900)\<close>, for the value \<open>random\<close> that
  \<^verbatim>\<open>Math.random()\<close> returned.
\<close>

definition randomSuffix :: "rat \<Rightarrow> nat" where
  "randomSuffix random = nat \<lfloor>100 + random * 900\<rfloor>"

text \<open>
  \<^verbatim>\<open>router.post('/register')\<close>. The parameters stand for what the handler takes from
  outside the repository: \<open>isEmail\<close> is the validator's test of an address, \<open>random\<close> the
  value of \<^verbatim>\<open>Math.random()\<close>, \<open>hash\<close> the result of \<^verbatim>\<open>bcrypt.hash\<close> with 10 rounds.
  \<open>register_try\<close> is the body of the \<^verbatim>\<open>try\<close> block: it returns the response it sent or
  the exception that left it, with the store as it is then.
\<close>

definition register_try ::
  "(nat \<Rightarrow> bool) \<Rightarrow> (string \<Rightarrow> bool) \<Rightarrow> rat \<Rightarrow> (string \<Rightarrow> string) \<Rightarrow> string \<Rightarrow> string \<Rightarrow> db
     \<Rightarrow> (exn + response) \<times> db" where
  "register_try up isEmail random hash email password d =
     (let errors = (if \<not> isEmail email then [''Invalid email''] else []) @
                   (if length password < 6
                    then [''Password must be at least 6 characters long''] else []) in
      if errors \<noteq> [] then (call users_js_scope ''clientErrorRes'' (ErrorList errors), d)
      else
        case User_findOne (up 0) (\<lambda>u. usr_email u = email) d of
          Inl e \<Rightarrow> (Inl e, d)
        | Inr (Some existingUser) \<Rightarrow>
            (call users_js_scope ''conflictErrorRes'' (Message ''Email already exists''), d)
        | Inr None \<Rightarrow>
            (let username = takeWhile (\<lambda>c. c \<noteq> CHR ''@'') email @ decimal (randomSuffix random);
                 hashedPassword = hash password;
                 newUser = \<lparr>usr_username = username, usr_email = email,
                            usr_hashedPassword = hashedPassword\<rparr> in
             case User_save (up 1) newUser d of
               Inl e \<Rightarrow> (Inl e, d)
             | Inr d1 \<Rightarrow>
                 (call users_js_scope ''createdRes''
                    (Registered ''User registered successfully'' username), d1)))"

definition register ::
  "(nat \<Rightarrow> bool) \<Rightarrow> (string \<Rightarrow> bool) \<Rightarrow> rat \<Rightarrow> (string \<Rightarrow> string) \<Rightarrow> string \<Rightarrow> string \<Rightarrow> db
     \<Rightarrow> response \<times> db" where
  "register up isEmail random hash email password d =
     (case register_try up isEmail random hash email password d of
        (Inl e, d') \<Rightarrow> (internal_error, d')
      | (Inr r, d') \<Rightarrow> (r, d'))"

section \<open>A concrete store\<close>

text \<open>
  The scenario of the specification: account A holds 100 and belongs to one user,
  account B belongs to another. Every store call returns under \<open>all_up\<close>. \<open>idB_upper\<close>
  is the id of account B spelled with upper-case digits.
\<close>

definition alice :: oid where "alice = ''64d2f0c1a7b3e9001c4a0001''"
definition bob :: oid where "bob = ''64d2f0c1a7b3e9001c4a0002''"
definition idA :: oid where "idA = ''64d2f0c1a7b3e9001c4a00aa''"
definition idB :: oid where "idB = ''64d2f0c1a7b3e9001c4a00bb''"
definition idC :: oid where "idC = ''64d2f0c1a7b3e9001c4a00cc''"
definition idB_upper :: string where "idB_upper = ''64D2F0C1A7B3E9001C4A00BB''"

definition accountA :: account where
  "accountA = \<lparr>acc_id = idA, acc_userId = alice, balance = 100\<rparr>"

definition accountB :: account where
  "accountB = \<lparr>acc_id = idB, acc_userId = bob, balance = 20\<rparr>"

definition db0 :: db where
  "db0 = \<lparr>accounts = [accountA, accountB], transactions = [], users = []\<rparr>"

text \<open>The doubles that the JSON numbers 0.1, 0.2 and 0.3 are parsed to.\<close>

definition tenth :: rat where "tenth = fl (1 / 10)"
definition two_tenths :: rat where "two_tenths = fl (2 / 10)"
definition three_tenths :: rat where "three_tenths = fl (3 / 10)"

definition accountP :: account where
  "accountP = \<lparr>acc_id = idA, acc_userId = alice, balance = three_tenths\<rparr>"

definition accountQ :: account where
  "accountQ = \<lparr>acc_id = idB, acc_userId = bob, balance = two_tenths\<rparr>"

definition db1 :: db where
  "db1 = \<lparr>accounts = [accountP, accountQ], transactions = [], users = []\<rparr>"

text \<open>An account holding 0.1, and an account holding 2 ^ 53, where adding 1 is absorbed.\<close>

definition accountT :: account where
  "accountT = \<lparr>acc_id = idA, acc_userId = alice, balance = tenth\<rparr>"

definition db2 :: db where
  "db2 = \<lparr>accounts = [accountT], transactions = [], users = []\<rparr>"

definition accountH :: account where
  "accountH = \<lparr>acc_id = idA, acc_userId = alice, balance = 2 ^ 53\<rparr>"

definition db3 :: db where
  "db3 = \<lparr>accounts = [accountH], transactions = [], users = []\<rparr>"

text \<open>A string of 24 characters that \<^verbatim>\<open>isMongoId\<close> accepts and no query can cast.\<close>

definition id0x :: string where "id0x = ''0x64d2f0c1a7b3e9001c4a00''"

definition all_up :: "nat \<Rightarrow> bool" where
  "all_up k = True"

text \<open>A store whose k-th call throws and whose other calls return.\<close>

definition fails_at :: "nat \<Rightarrow> nat \<Rightarrow> bool" where
  "fails_at k j = (j \<noteq> k)"

section \<open>Lookups and saves\<close>

lemma find_set_balance:
  "find (\<lambda>a. acc_id a = j) (set_balance i v xs) =
     (if i = j then map_option (\<lambda>a. a\<lparr>balance := v\<rparr>) (find (\<lambda>a. acc_id a = i) xs)
      else find (\<lambda>a. acc_id a = j) xs)"
  by (induction xs) auto

lemma map_acc_id_set_balance: "map acc_id (set_balance i v xs) = map acc_id xs"
  by (induction xs) auto

lemma find_SomeD: "find P xs = Some a \<Longrightarrow> a \<in> set xs \<and> P a"
  by (induction xs) (auto split: if_splits)

lemma find_owned_first:
  "distinct (map acc_id xs) \<Longrightarrow> find (\<lambda>a. acc_id a = i \<and> acc_userId a = u) xs = Some a
   \<Longrightarrow> find (\<lambda>a. acc_id a = i) xs = Some a"
proof (induction xs)
  case Nil
  then show ?case by simp
next
  case (Cons x xs)
  show ?case
  proof (cases "acc_id x = i")
    case False
    with Cons show ?thesis by simp
  next
    case True
    show ?thesis
    proof (cases "acc_userId x = u")
      case True
      with \<open>acc_id x = i\<close> Cons.prems show ?thesis by simp
    next
      case False
      with Cons.prems have "find (\<lambda>a. acc_id a = i \<and> acc_userId a = u) xs = Some a" by simp
      then have "a \<in> set xs" "acc_id a = i" using find_SomeD by fastforce+
      then have "acc_id x \<in> acc_id ` set xs" using \<open>acc_id x = i\<close> by force
      with Cons.prems(1) show ?thesis by simp
    qed
  qed
qed

lemma find_first_owned:
  "find (\<lambda>a. acc_id a = i) xs = Some a \<Longrightarrow> acc_userId a = u
   \<Longrightarrow> find (\<lambda>a. acc_id a = i \<and> acc_userId a = u) xs = Some a"
  by (induction xs) (auto split: if_splits)

lemma find_absent_owned:
  "find (\<lambda>a. acc_id a = i) xs = None \<Longrightarrow> find (\<lambda>a. acc_id a = i \<and> acc_userId a = u) xs = None"
  by (induction xs) (auto split: if_splits)

lemma find_not_owned:
  assumes "distinct (map acc_id xs)" "find (\<lambda>a. acc_id a = i) xs = Some a" "acc_userId a \<noteq> u"
  shows "find (\<lambda>a. acc_id a = i \<and> acc_userId a = u) xs = None"
proof (cases "find (\<lambda>a. acc_id a = i \<and> acc_userId a = u) xs")
  case None
  then show ?thesis .
next
  case (Some b)
  with assms(1) have "find (\<lambda>a. acc_id a = i) xs = Some b" by (rule find_owned_first)
  with assms(2) have "b = a" by simp
  with Some assms(3) show ?thesis using find_SomeD by fastforce
qed

lemma find_write_if_modified:
  "find (\<lambda>a. acc_id a = j) (write_if_modified i old new xs) =
     (if i = j \<and> new \<noteq> old
      then map_option (\<lambda>a. a\<lparr>balance := new\<rparr>) (find (\<lambda>a. acc_id a = i) xs)
      else find (\<lambda>a. acc_id a = j) xs)"
  by (simp add: write_if_modified_def find_set_balance)

lemma map_acc_id_write_if_modified:
  "map acc_id (write_if_modified i old new xs) = map acc_id xs"
  by (simp add: write_if_modified_def map_acc_id_set_balance)

lemma balance_written:
  assumes "find (\<lambda>a. acc_id a = i) xs = Some a" and "balance a = old"
  shows "map_option balance (find (\<lambda>a. acc_id a = i) (write_if_modified i old new xs)) = Some new"
  using assms by (simp add: find_write_if_modified)

section \<open>Rounding\<close>

lemma pow2_pos: "0 < pow2 k"
  by (simp add: pow2_def)

lemma round_half_even_nonneg: "0 \<le> r \<Longrightarrow> 0 \<le> round_half_even r"
  by (simp add: round_half_even_def Let_def)

lemma fl_nonneg:
  assumes "0 \<le> q"
  shows "0 \<le> fl q"
proof (cases "q = 0")
  case True
  then show ?thesis by (simp add: fl_def)
next
  case False
  let ?u = "pow2 (max (ilog2 \<bar>q\<bar>) (- 1022) - 52)"
  from False assms have "0 < q" by simp
  then have "0 \<le> \<bar>q\<bar> / ?u" using pow2_pos [of "max (ilog2 \<bar>q\<bar>) (- 1022) - 52"] by simp
  then have "0 \<le> round_half_even (\<bar>q\<bar> / ?u)" by (rule round_half_even_nonneg)
  then have "0 \<le> of_int (round_half_even (\<bar>q\<bar> / ?u)) * ?u"
    using pow2_pos [of "max (ilog2 \<bar>q\<bar>) (- 1022) - 52"] by simp
  with \<open>0 < q\<close> False show ?thesis by (simp add: fl_def Let_def)
qed

lemma representable_fl: "representable q \<Longrightarrow> fl q = q"
  by (simp add: representable_def)

section \<open>Validation\<close>

lemma castObjectId_isMongoId:
  assumes "castObjectId s = Some i"
  shows "isMongoId s" and "s \<noteq> []"
  using assms
  by (auto simp: castObjectId_def isMongoId_def isHexadecimal_def split: if_splits)

lemma check_valid:
  "castObjectId s = Some i \<Longrightarrow> check_accountId s = []"
  "isNumeric x \<Longrightarrow> 0 < x \<Longrightarrow> check_amount x = []"
  "r \<noteq> [] \<Longrightarrow> check_receiverAccountId r = []"
  using castObjectId_isMongoId [of s i]
  by (auto simp: check_accountId_def check_amount_def check_receiverAccountId_def)

lemma check_amount_valid:
  "check_amount x = [] \<longleftrightarrow> isNumeric x \<and> 0 < x"
  by (simp add: check_amount_def)

section \<open>What each handler computes\<close>

lemma deposit_found:
  assumes "castObjectId s = Some i" and "isNumeric x" and "0 < x"
    and "find (\<lambda>a. acc_id a = i \<and> acc_userId a = u) (accounts d) = Some a"
  shows "deposit up u s x d =
    (if \<not> up 0 \<or> \<not> up 1 then (internal_error, d)
     else if \<not> up 2
       then (internal_error,
             d\<lparr>accounts := write_if_modified i (balance a) (fl (balance a + x)) (accounts d)\<rparr>)
     else (successRes (AccountDoc (a\<lparr>balance := fl (balance a + x)\<rparr>)),
           d\<lparr>accounts := write_if_modified i (balance a) (fl (balance a + x)) (accounts d),
             transactions := transactions d @
               [\<lparr>txn_userId = u, txn_accountId = i, txn_type = Deposit, txn_amount = x\<rparr>]\<rparr>))"
proof -
  from assms(4) have "acc_id a = i" using find_SomeD by fastforce
  with assms show ?thesis
    by (simp add: deposit_def check_valid Account_findOne_def Account_save_def
          Transaction_save_def)
qed

lemma deposit_not_found:
  assumes "castObjectId s = Some i" and "isNumeric x" and "0 < x"
    and "find (\<lambda>a. acc_id a = i \<and> acc_userId a = u) (accounts d) = None"
  shows "deposit up u s x d =
    (if \<not> up 0 then (internal_error, d) else (notFoundRes (Message ''Account not found''), d))"
  using assms by (simp add: deposit_def check_valid Account_findOne_def)

lemma withdraw_found:
  assumes "castObjectId s = Some i" and "isNumeric x" and "0 < x"
    and "find (\<lambda>a. acc_id a = i \<and> acc_userId a = u) (accounts d) = Some a"
  shows "withdraw up u s x d =
    (if \<not> up 0 then (internal_error, d)
     else if balance a < x then (clientErrorRes (Message ''Insufficient funds''), d)
     else if \<not> up 1 then (internal_error, d)
     else if \<not> up 2
       then (internal_error,
             d\<lparr>accounts := write_if_modified i (balance a) (fl (balance a - x)) (accounts d)\<rparr>)
     else (successRes (AccountDoc (a\<lparr>balance := fl (balance a - x)\<rparr>)),
           d\<lparr>accounts := write_if_modified i (balance a) (fl (balance a - x)) (accounts d),
             transactions := transactions d @
               [\<lparr>txn_userId = u, txn_accountId = i, txn_type = Withdrawal, txn_amount = x\<rparr>]\<rparr>))"
proof -
  from assms(4) have "acc_id a = i" using find_SomeD by fastforce
  with assms show ?thesis
    by (simp add: withdraw_def check_valid Account_findOne_def Account_save_def
          Transaction_save_def)
qed

lemma withdraw_not_found:
  assumes "castObjectId s = Some i" and "isNumeric x" and "0 < x"
    and "find (\<lambda>a. acc_id a = i \<and> acc_userId a = u) (accounts d) = None"
  shows "withdraw up u s x d =
    (if \<not> up 0 then (internal_error, d) else (notFoundRes (Message ''Account not found''), d))"
  using assms by (simp add: withdraw_def check_valid Account_findOne_def)

lemma transfer_found:
  assumes "castObjectId s = Some i" and "castObjectId r = Some j"
    and "isNumeric x" and "0 < x"
    and "find (\<lambda>a. acc_id a = i \<and> acc_userId a = u) (accounts d) = Some sa"
    and "find (\<lambda>a. acc_id a = j) (accounts d) = Some ra"
  shows "transfer up u s r x d =
    (if \<not> up 0 \<or> \<not> up 1 then (internal_error, d)
     else if balance sa < x then (clientErrorRes (Message ''Insufficient funds''), d)
     else if \<not> up 2 then (internal_error, d)
     else if \<not> up 3
       then (internal_error,
             d\<lparr>accounts := write_if_modified i (balance sa) (fl (balance sa - x)) (accounts d)\<rparr>)
     else if \<not> up 4
       then (internal_error,
             d\<lparr>accounts := write_if_modified j (balance ra) (fl (balance ra + x))
                 (write_if_modified i (balance sa) (fl (balance sa - x)) (accounts d))\<rparr>)
     else if \<not> up 5
       then (internal_error,
             d\<lparr>accounts := write_if_modified j (balance ra) (fl (balance ra + x))
                 (write_if_modified i (balance sa) (fl (balance sa - x)) (accounts d)),
               transactions := transactions d @
                 [\<lparr>txn_userId = u, txn_accountId = i, txn_type = Transfer, txn_amount = - x\<rparr>]\<rparr>)
     else (successRes (TransferDocs (sa\<lparr>balance := fl (balance sa - x)\<rparr>)
                                    (ra\<lparr>balance := fl (balance ra + x)\<rparr>)),
           d\<lparr>accounts := write_if_modified j (balance ra) (fl (balance ra + x))
               (write_if_modified i (balance sa) (fl (balance sa - x)) (accounts d)),
             transactions := transactions d @
               [\<lparr>txn_userId = u, txn_accountId = i, txn_type = Transfer, txn_amount = - x\<rparr>,
                \<lparr>txn_userId = acc_userId ra, txn_accountId = j, txn_type = Transfer,
                 txn_amount = x\<rparr>]\<rparr>))"
proof -
  from assms(5) have "acc_id sa = i" using find_SomeD by fastforce
  moreover from assms(6) have "acc_id ra = j" using find_SomeD by fastforce
  moreover from assms(2) have "r \<noteq> []" by (rule castObjectId_isMongoId)
  ultimately show ?thesis using assms
    by (simp add: transfer_def check_valid Account_findOne_def Account_save_def
          Transaction_save_def)
qed

lemma transfer_sender_missing:
  assumes "castObjectId s = Some i" and "castObjectId r = Some j"
    and "isNumeric x" and "0 < x"
    and "find (\<lambda>a. acc_id a = i \<and> acc_userId a = u) (accounts d) = None"
  shows "transfer up u s r x d =
    (if \<not> up 0 \<or> \<not> up 1 then (internal_error, d)
     else (notFoundRes (Message ''Sender account not found''), d))"
proof -
  from assms(2) have "r \<noteq> []" by (rule castObjectId_isMongoId)
  with assms show ?thesis
    by (simp add: transfer_def check_valid Account_findOne_def)
qed

lemma transfer_receiver_missing:
  assumes "castObjectId s = Some i" and "castObjectId r = Some j"
    and "isNumeric x" and "0 < x"
    and "find (\<lambda>a. acc_id a = i \<and> acc_userId a = u) (accounts d) = Some sa"
    and "find (\<lambda>a. acc_id a = j) (accounts d) = None"
  shows "transfer up u s r x d =
    (if \<not> up 0 \<or> \<not> up 1 then (internal_error, d)
     else (notFoundRes (Message ''Receiver account not found''), d))"
proof -
  from assms(2) have "r \<noteq> []" by (rule castObjectId_isMongoId)
  with assms show ?thesis
    by (simp add: transfer_def check_valid Account_findOne_def)
qed

lemma transfer_uncastable:
  assumes "castObjectId s = None \<or> castObjectId r = None"
  shows "fst (transfer up u s r x d) = internal_error \<or>
         (\<exists>errors. fst (transfer up u s r x d) = clientErrorRes (ErrorList errors))"
    and "snd (transfer up u s r x d) = d"
  using assms
  by (auto simp: transfer_def Let_def Account_findOne_def split: option.splits)

section \<open>Facts about the concrete store\<close>

lemma example_casts:
  "castObjectId idA = Some idA" "castObjectId idB = Some idB" "castObjectId idC = Some idC"
  "castObjectId idB_upper = Some idB" "castObjectId ''abc'' = None" "castObjectId id0x = None"
  "isMongoId id0x" "idB_upper \<noteq> idB"
  by (simp_all add: castObjectId_def isMongoId_def isHexadecimal_def isHexDigit_def
        toLowerCase_def idA_def idB_def idC_def idB_upper_def id0x_def)

lemma example_ids:
  "idA \<noteq> idB" "idB \<noteq> idA" "idA \<noteq> idC" "idB \<noteq> idC" "alice \<noteq> bob" "bob \<noteq> alice"
  by (simp_all add: idA_def idB_def idC_def alice_def bob_def)

lemma example_db0:
  "unique_ids db0"
  "account_by_id db0 idA = Some accountA"
  "account_by_id db0 idB = Some accountB"
  "account_by_id db0 idC = None"
  "acc_userId accountA = alice" "acc_userId accountB = bob"
  "balance accountA = 100" "balance accountB = 20"
  "acc_id accountA = idA" "acc_id accountB = idB"
  "transactions db0 = []"
  using example_ids
  by (simp_all add: unique_ids_def account_by_id_def db0_def accountA_def accountB_def)

lemma example_amounts:
  "isNumeric 50" "isNumeric 75" "isNumeric 150" "isNumeric 1"
  "\<not> isNumeric (10 ^ 21)" "\<not> isNumeric (fl (1 / 10 ^ 7))" "0 < fl (1 / 10 ^ 7)"
  "isNumeric tenth" "isNumeric two_tenths" "0 < tenth" "0 < two_tenths"
  by (code_simp+)

lemma example_rounding:
  "fl 150 = 150" "fl 50 = 50" "fl 25 = 25" "fl 95 = 95" "fl 175 = 175" "fl 100 = 100"
  "fl 0 = 0" "fl 75 = 75"
  "fl (2 ^ 53 + 1) = 2 ^ 53" "fl (2 ^ 53 - 1) = 2 ^ 53 - 1"
  by (code_simp+)

section \<open>Deposit\<close>

text \<open>
  C5, as stated, fails on the code. An amount of 1e-7 is a finite number greater than 0,
  and the deposit is refused by the validators, because its string has an exponent. A
  deposit of 1 into an account holding 2 ^ 53 succeeds and leaves the balance at 2 ^ 53,
  because the sum is rounded. A 24-character id with the prefix 0x passes validation,
  names no account, and the answer is the internal error, not notFoundRes.
\<close>

theorem deposit_counterexample:
  "0 < fl (1 / 10 ^ 7) \<and>
   deposit all_up alice idA (fl (1 / 10 ^ 7)) db0 =
     (clientErrorRes (ErrorList [''Amount must be a number'']), db0) \<and>
   is_success (fst (deposit all_up alice idA 1 db3)) \<and>
   balance_of db3 idA = Some (2 ^ 53) \<and>
   balance_of (snd (deposit all_up alice idA 1 db3)) idA = Some (2 ^ 53) \<and>
   isMongoId id0x \<and>
   deposit all_up alice id0x 50 db0 = (internal_error, db0)"
proof -
  have tiny: "deposit all_up alice idA (fl (1 / 10 ^ 7)) db0 =
     (clientErrorRes (ErrorList [''Amount must be a number'']), db0)"
    using example_amounts example_casts
    by (simp add: deposit_def check_accountId_def check_amount_def castObjectId_isMongoId)
  have owned: "find (\<lambda>a. acc_id a = idA \<and> acc_userId a = alice) (accounts db3) = Some accountH"
    by (simp add: db3_def accountH_def)
  have big: "deposit all_up alice idA 1 db3 =
      (successRes (AccountDoc (accountH\<lparr>balance := fl (balance accountH + 1)\<rparr>)),
       db3\<lparr>accounts := write_if_modified idA (balance accountH) (fl (balance accountH + 1))
                          (accounts db3),
           transactions := transactions db3 @
             [\<lparr>txn_userId = alice, txn_accountId = idA, txn_type = Deposit,
               txn_amount = 1\<rparr>]\<rparr>)"
    using deposit_found [OF example_casts(1) example_amounts(4) _ owned, of all_up]
    by (simp add: all_up_def)
  have absorbed: "fl (balance accountH + 1) = 2 ^ 53"
    using example_rounding by (simp add: accountH_def)
  have "balance_of (snd (deposit all_up alice idA 1 db3)) idA = Some (2 ^ 53)"
    by (simp add: big absorbed balance_of_def account_by_id_def write_if_modified_def)
       (simp add: db3_def accountH_def)
  moreover have "balance_of db3 idA = Some (2 ^ 53)"
    by (simp add: balance_of_def account_by_id_def db3_def accountH_def)
  moreover have "deposit all_up alice id0x 50 db0 = (internal_error, db0)"
    using example_amounts example_casts
    by (simp add: deposit_def check_accountId_def check_amount_def Account_findOne_def)
       (simp add: id0x_def)
  ultimately show ?thesis
    using tiny big example_amounts(7) example_casts(7) by simp
qed

text \<open>
  C5, amended. The account is addressed by a string of 24 hexadecimal digits and the
  amount is a JSON number that passes the validators: greater than 0, at least 1e-6 and
  less than 1e21. When the account with that id belongs to the caller and the store
  answers every call, the answer is successRes with the updated account, the stored
  balance is the double nearest to the old balance plus the amount, which is exactly the
  old balance plus the amount when that sum is a double, and exactly one transaction
  of type Deposit with that amount is appended. When no account has the id, or the
  account with the id belongs to another user, the answer is notFoundRes and the store is
  unchanged.
\<close>

theorem deposit_credits_and_records:
  assumes "castObjectId accountId = Some i" and "isNumeric amount" and "0 < amount"
    and "unique_ids d" and "up 0"
  shows "(\<forall>a. account_by_id d i = Some a \<and> acc_userId a = userId \<and> up 1 \<and> up 2 \<longrightarrow>
            (\<exists>d'. deposit up userId accountId amount d =
                    (successRes (AccountDoc (a\<lparr>balance := fl (balance a + amount)\<rparr>)), d') \<and>
                  balance_of d' i = Some (fl (balance a + amount)) \<and>
                  (representable (balance a + amount) \<longrightarrow>
                     balance_of d' i = Some (balance a + amount)) \<and>
                  transactions d' = transactions d @
                    [\<lparr>txn_userId = userId, txn_accountId = i,
                      txn_type = Deposit, txn_amount = amount\<rparr>])) \<and>
         (account_by_id d i = None \<or>
          (\<exists>a. account_by_id d i = Some a \<and> acc_userId a \<noteq> userId) \<longrightarrow>
            deposit up userId accountId amount d =
              (notFoundRes (Message ''Account not found''), d) \<and>
            status (notFoundRes (Message ''Account not found'')) = 404)"
proof (intro conjI allI impI)
  fix a
  assume h: "account_by_id d i = Some a \<and> acc_userId a = userId \<and> up 1 \<and> up 2"
  then have by_id: "find (\<lambda>a. acc_id a = i) (accounts d) = Some a"
    by (simp add: account_by_id_def)
  with h have "find (\<lambda>a. acc_id a = i \<and> acc_userId a = userId) (accounts d) = Some a"
    by (simp add: find_first_owned)
  from deposit_found [OF assms(1,2,3) this, of up] h assms(5)
  have run: "deposit up userId accountId amount d =
          (successRes (AccountDoc (a\<lparr>balance := fl (balance a + amount)\<rparr>)),
           d\<lparr>accounts := write_if_modified i (balance a) (fl (balance a + amount)) (accounts d),
             transactions := transactions d @
               [\<lparr>txn_userId = userId, txn_accountId = i,
                 txn_type = Deposit, txn_amount = amount\<rparr>]\<rparr>)"
    by simp
  have stored: "balance_of
       (d\<lparr>accounts := write_if_modified i (balance a) (fl (balance a + amount)) (accounts d),
          transactions := transactions d @
            [\<lparr>txn_userId = userId, txn_accountId = i,
              txn_type = Deposit, txn_amount = amount\<rparr>]\<rparr>) i
       = Some (fl (balance a + amount))"
    using balance_written [OF by_id refl] by (simp add: balance_of_def account_by_id_def)
  have exact: "representable (balance a + amount) \<longrightarrow>
      balance_of
       (d\<lparr>accounts := write_if_modified i (balance a) (fl (balance a + amount)) (accounts d),
          transactions := transactions d @
            [\<lparr>txn_userId = userId, txn_accountId = i,
              txn_type = Deposit, txn_amount = amount\<rparr>]\<rparr>) i
       = Some (balance a + amount)"
    unfolding representable_def using stored by metis
  have appended: "transactions
       (d\<lparr>accounts := write_if_modified i (balance a) (fl (balance a + amount)) (accounts d),
          transactions := transactions d @
            [\<lparr>txn_userId = userId, txn_accountId = i,
              txn_type = Deposit, txn_amount = amount\<rparr>]\<rparr>)
       = transactions d @
            [\<lparr>txn_userId = userId, txn_accountId = i,
              txn_type = Deposit, txn_amount = amount\<rparr>]"
    by simp
  from run stored exact appended
  show "\<exists>d'. deposit up userId accountId amount d =
                    (successRes (AccountDoc (a\<lparr>balance := fl (balance a + amount)\<rparr>)), d') \<and>
                  balance_of d' i = Some (fl (balance a + amount)) \<and>
                  (representable (balance a + amount) \<longrightarrow>
                     balance_of d' i = Some (balance a + amount)) \<and>
                  transactions d' = transactions d @
                    [\<lparr>txn_userId = userId, txn_accountId = i,
                      txn_type = Deposit, txn_amount = amount\<rparr>]"
    by blast
next
  assume h: "account_by_id d i = None \<or>
          (\<exists>a. account_by_id d i = Some a \<and> acc_userId a \<noteq> userId)"
  have "find (\<lambda>a. acc_id a = i \<and> acc_userId a = userId) (accounts d) = None"
    using h assms(4)
    by (auto simp: account_by_id_def unique_ids_def find_absent_owned find_not_owned)
  from deposit_not_found [OF assms(1,2,3) this, of up] assms(5)
  show "deposit up userId accountId amount d = (notFoundRes (Message ''Account not found''), d)"
    by simp
next
  show "status (notFoundRes (Message ''Account not found'')) = 404" by simp
qed

theorem deposit_credits_and_records_witness:
  "(\<exists>d'. deposit all_up alice idA 50 db0 =
           (successRes (AccountDoc (accountA\<lparr>balance := 150\<rparr>)), d') \<and>
         balance_of d' idA = Some 150 \<and>
         transactions d' = [\<lparr>txn_userId = alice, txn_accountId = idA,
                             txn_type = Deposit, txn_amount = 50\<rparr>]) \<and>
   deposit all_up bob idA 50 db0 = (notFoundRes (Message ''Account not found''), db0) \<and>
   deposit all_up alice idC 50 db0 = (notFoundRes (Message ''Account not found''), db0)"
proof -
  have up: "all_up 0" "all_up 1" "all_up 2" by (simp_all add: all_up_def)
  have pos: "(0::rat) < 50" by simp
  note owned = deposit_credits_and_records
    [where accountId = idA and i = idA and amount = 50 and d = db0 and up = all_up
       and userId = alice,
     OF example_casts(1) example_amounts(1) pos example_db0(1) up(1)]
  note foreign = deposit_credits_and_records
    [where accountId = idA and i = idA and amount = 50 and d = db0 and up = all_up
       and userId = bob,
     OF example_casts(1) example_amounts(1) pos example_db0(1) up(1)]
  note absent = deposit_credits_and_records
    [where accountId = idC and i = idC and amount = 50 and d = db0 and up = all_up
       and userId = alice,
     OF example_casts(3) example_amounts(1) pos example_db0(1) up(1)]
  from owned up example_db0 example_rounding have
    "\<exists>d'. deposit all_up alice idA 50 db0 =
           (successRes (AccountDoc (accountA\<lparr>balance := 150\<rparr>)), d') \<and>
         balance_of d' idA = Some 150 \<and>
         transactions d' = [\<lparr>txn_userId = alice, txn_accountId = idA,
                             txn_type = Deposit, txn_amount = 50\<rparr>]"
    by (auto simp: representable_def)
  moreover from foreign example_db0 example_ids
  have "deposit all_up bob idA 50 db0 = (notFoundRes (Message ''Account not found''), db0)"
    by simp
  moreover from absent example_db0
  have "deposit all_up alice idC 50 db0 = (notFoundRes (Message ''Account not found''), db0)"
    by simp
  ultimately show ?thesis by simp
qed

section \<open>Withdraw\<close>

text \<open>
  C3, as stated, fails on the code. Account A holds 100 and belongs to the caller; a
  withdrawal of 1e21 exceeds the balance, but the validators refuse the amount, whose
  string has an exponent, before the balance is looked at: the answer is the list of
  validation errors, not "Insufficient funds".
\<close>

theorem withdraw_counterexample:
  "account_by_id db0 idA = Some accountA \<and> acc_userId accountA = alice \<and>
   balance accountA < 10 ^ 21 \<and>
   withdraw all_up alice idA (10 ^ 21) db0 =
     (clientErrorRes (ErrorList [''Amount must be a number'']), db0) \<and>
   fst (withdraw all_up alice idA (10 ^ 21) db0) \<noteq>
     clientErrorRes (Message ''Insufficient funds'')"
proof -
  have "withdraw all_up alice idA (10 ^ 21) db0 =
     (clientErrorRes (ErrorList [''Amount must be a number'']), db0)"
    using example_amounts example_casts
    by (simp add: withdraw_def check_accountId_def check_amount_def castObjectId_isMongoId)
  then show ?thesis by (simp add: example_db0)
qed

text \<open>
  C3, amended. A withdrawal from an existing account that the caller owns, addressed by
  24 hexadecimal digits, of an amount that passes the validators (greater than 0, at
  least 1e-6 and less than 1e21) and is greater than the balance, is answered with
  clientErrorRes and the message "Insufficient funds", a response of status 400; the store
  is left as it was, so the balance is unchanged and no transaction is recorded. This
  holds whatever the store would have done on a write.
\<close>

theorem withdraw_insufficient_funds:
  assumes "castObjectId accountId = Some i" and "isNumeric amount" and "0 < amount"
    and "up 0"
    and "account_by_id d i = Some a" and "acc_userId a = userId"
    and "balance a < amount"
  shows "withdraw up userId accountId amount d =
           (clientErrorRes (Message ''Insufficient funds''), d) \<and>
         status (fst (withdraw up userId accountId amount d)) = 400 \<and>
         balance_of (snd (withdraw up userId accountId amount d)) i = Some (balance a) \<and>
         transactions (snd (withdraw up userId accountId amount d)) = transactions d"
proof -
  from assms(5,6)
  have "find (\<lambda>a. acc_id a = i \<and> acc_userId a = userId) (accounts d) = Some a"
    by (simp add: account_by_id_def find_first_owned)
  from withdraw_found [OF assms(1,2,3) this, of up] assms(4,7)
  have "withdraw up userId accountId amount d =
          (clientErrorRes (Message ''Insufficient funds''), d)"
    by simp
  then show ?thesis using assms(5) by (simp add: balance_of_def)
qed

theorem withdraw_insufficient_funds_witness:
  "withdraw all_up alice idA 150 db0 = (clientErrorRes (Message ''Insufficient funds''), db0) \<and>
   status (fst (withdraw all_up alice idA 150 db0)) = 400 \<and>
   balance_of (snd (withdraw all_up alice idA 150 db0)) idA = Some 100 \<and>
   transactions (snd (withdraw all_up alice idA 150 db0)) = []"
proof -
  have up: "all_up 0" by (simp add: all_up_def)
  have pos: "(0::rat) < 150" by simp
  have less: "balance accountA < 150" by (simp add: example_db0)
  from withdraw_insufficient_funds
    [where accountId = idA and i = idA and amount = 150 and d = db0 and up = all_up
       and userId = alice and a = accountA,
     OF example_casts(1) example_amounts(3) pos up example_db0(2) example_db0(5) less]
  show ?thesis by (simp add: example_db0 balance_of_def)
qed

section \<open>Transfer\<close>




lemma transfer_success_inv:
  assumes "transfer up u s r x d = (successRes body, d')"
  shows "\<exists>i j sa ra.
           castObjectId s = Some i \<and> castObjectId r = Some j \<and>
           find (\<lambda>a. acc_id a = i \<and> acc_userId a = u) (accounts d) = Some sa \<and>
           find (\<lambda>a. acc_id a = j) (accounts d) = Some ra \<and>
           isNumeric x \<and> 0 < x \<and> x \<le> balance sa \<and>
           body = TransferDocs (sa\<lparr>balance := fl (balance sa - x)\<rparr>)
                               (ra\<lparr>balance := fl (balance ra + x)\<rparr>) \<and>
           d' = d\<lparr>accounts := write_if_modified j (balance ra) (fl (balance ra + x))
                     (write_if_modified i (balance sa) (fl (balance sa - x)) (accounts d)),
                  transactions := transactions d @
                    [\<lparr>txn_userId = u, txn_accountId = i, txn_type = Transfer, txn_amount = - x\<rparr>,
                     \<lparr>txn_userId = acc_userId ra, txn_accountId = j, txn_type = Transfer,
                      txn_amount = x\<rparr>]\<rparr>"
proof -
  have valid: "check_accountId s @ check_receiverAccountId r @ check_amount x = []"
    using assms by (auto simp: transfer_def Let_def split: if_splits)
  then have v: "isNumeric x" "0 < x"
    by (simp_all add: check_amount_valid)
  from assms valid obtain i where i: "castObjectId s = Some i"
    by (cases "castObjectId s")
       (auto simp: transfer_def Let_def Account_findOne_def internal_error_def)
  from assms valid i obtain j where j: "castObjectId r = Some j"
    by (cases "castObjectId r")
       (auto simp: transfer_def Let_def Account_findOne_def internal_error_def
             split: if_splits)
  show ?thesis
  proof (cases "find (\<lambda>a. acc_id a = i \<and> acc_userId a = u) (accounts d)")
    case None
    from transfer_sender_missing [OF i j v this, of up] assms show ?thesis
      by (simp add: internal_error_def split: if_splits)
  next
    case (Some sa)
    note sender = this
    show ?thesis
    proof (cases "find (\<lambda>a. acc_id a = j) (accounts d)")
      case None
      from transfer_receiver_missing [OF i j v sender this, of up] assms show ?thesis
        by (simp add: internal_error_def split: if_splits)
    next
      case (Some ra)
      from transfer_found [OF i j v sender this, of up] assms v i j sender Some show ?thesis
        by (simp add: internal_error_def split: if_splits)
    qed
  qed
qed

text \<open>
  C1, as stated, fails on the code. Account P holds 0.3 and belongs to the caller,
  account Q holds 0.2; the transfer of 0.1 from P to Q is answered with successRes. The
  sum 0.2 + 0.1 is not a double and is rounded up: the receiver's stored balance is more
  than its old balance plus the amount, and the two balances add up to more than before.
\<close>

theorem transfer_counterexample:
  "is_success (fst (transfer all_up alice idA idB tenth db1)) \<and>
   balance_of db1 idA = Some three_tenths \<and> balance_of db1 idB = Some two_tenths \<and>
   balance_of (snd (transfer all_up alice idA idB tenth db1)) idA = Some (three_tenths - tenth) \<and>
   balance_of (snd (transfer all_up alice idA idB tenth db1)) idB =
     Some (two_tenths + tenth + 1 / 2 ^ 55) \<and>
   (three_tenths - tenth) + (two_tenths + tenth + 1 / 2 ^ 55) \<noteq> three_tenths + two_tenths"
proof -
  have sender: "find (\<lambda>a. acc_id a = idA \<and> acc_userId a = alice) (accounts db1) = Some accountP"
    by (simp add: db1_def accountP_def)
  have receiver: "find (\<lambda>a. acc_id a = idB) (accounts db1) = Some accountQ"
    using example_ids by (simp add: db1_def accountP_def accountQ_def)
  have enough: "\<not> three_tenths < tenth" by code_simp
  have debit: "fl (three_tenths - tenth) = three_tenths - tenth" by code_simp
  have credit: "fl (two_tenths + tenth) = two_tenths + tenth + 1 / 2 ^ 55" by code_simp
  have changed: "three_tenths - tenth \<noteq> three_tenths"
    "two_tenths + tenth + 1 / 2 ^ 55 \<noteq> two_tenths" by (code_simp+)
  have run: "transfer all_up alice idA idB tenth db1 =
     (successRes (TransferDocs (accountP\<lparr>balance := three_tenths - tenth\<rparr>)
                               (accountQ\<lparr>balance := two_tenths + tenth + 1 / 2 ^ 55\<rparr>)),
      db1\<lparr>accounts := [accountP\<lparr>balance := three_tenths - tenth\<rparr>,
                        accountQ\<lparr>balance := two_tenths + tenth + 1 / 2 ^ 55\<rparr>],
          transactions :=
            [\<lparr>txn_userId = alice, txn_accountId = idA, txn_type = Transfer,
              txn_amount = - tenth\<rparr>,
             \<lparr>txn_userId = bob, txn_accountId = idB, txn_type = Transfer,
              txn_amount = tenth\<rparr>]\<rparr>)"
    using transfer_found [OF example_casts(1) example_casts(2) example_amounts(8)
        example_amounts(10) sender receiver, of all_up]
      enough debit credit changed example_ids
    by (simp add: all_up_def write_if_modified_def)
       (simp add: db1_def accountP_def accountQ_def)
  have "balance_of db1 idA = Some three_tenths" "balance_of db1 idB = Some two_tenths"
    using example_ids
    by (simp_all add: balance_of_def account_by_id_def db1_def accountP_def accountQ_def)
  moreover have "balance_of (snd (transfer all_up alice idA idB tenth db1)) idA =
      Some (three_tenths - tenth)"
    using example_ids
    by (simp add: run balance_of_def account_by_id_def accountP_def accountQ_def)
  moreover have "balance_of (snd (transfer all_up alice idA idB tenth db1)) idB =
      Some (two_tenths + tenth + 1 / 2 ^ 55)"
    using example_ids
    by (simp add: run balance_of_def account_by_id_def accountP_def accountQ_def)
  ultimately show ?thesis by (simp add: run)
qed

text \<open>
  C1, amended. Every transfer that is answered with successRes, whose sender and receiver
  ids are cast to different ObjectIds, in a store whose ids are unique, had a sender owned
  by the caller with a balance of at least the amount and an existing receiver;
  afterwards the stored balance of the sender is the double nearest to its old balance
  minus the amount and that of the receiver the double nearest to its old balance plus
  the amount. When this difference and this sum are doubles, so that neither is rounded,
  the sender's balance has decreased by exactly the amount, the receiver's has increased
  by exactly the amount, and the two balances add up to what they added up to before.
\<close>

theorem transfer_moves_amount:
  assumes "transfer up userId accountId receiverAccountId amount d = (successRes body, d')"
    and "castObjectId accountId = Some i" and "castObjectId receiverAccountId = Some j"
    and "i \<noteq> j" and "unique_ids d"
  shows "\<exists>sender receiver bs' br'.
           account_by_id d i = Some sender \<and> acc_userId sender = userId \<and>
           account_by_id d j = Some receiver \<and>
           amount \<le> balance sender \<and>
           balance_of d' i = Some bs' \<and> bs' = fl (balance sender - amount) \<and>
           balance_of d' j = Some br' \<and> br' = fl (balance receiver + amount) \<and>
           (representable (balance sender - amount) \<and>
            representable (balance receiver + amount) \<longrightarrow>
              bs' = balance sender - amount \<and> br' = balance receiver + amount \<and>
              bs' + br' = balance sender + balance receiver)"
proof -
  from transfer_success_inv [OF assms(1)] assms(2,3) obtain sa ra where
    sender: "find (\<lambda>a. acc_id a = i \<and> acc_userId a = userId) (accounts d) = Some sa"
    and receiver: "find (\<lambda>a. acc_id a = j) (accounts d) = Some ra"
    and enough: "amount \<le> balance sa"
    and d': "d' = d\<lparr>accounts := write_if_modified j (balance ra) (fl (balance ra + amount))
                     (write_if_modified i (balance sa) (fl (balance sa - amount)) (accounts d)),
                  transactions := transactions d @
                    [\<lparr>txn_userId = userId, txn_accountId = i, txn_type = Transfer,
                      txn_amount = - amount\<rparr>,
                     \<lparr>txn_userId = acc_userId ra, txn_accountId = j,
                      txn_type = Transfer, txn_amount = amount\<rparr>]\<rparr>"
    by auto
  from sender have owner: "acc_userId sa = userId" using find_SomeD by fastforce
  from assms(5) sender have first: "find (\<lambda>a. acc_id a = i) (accounts d) = Some sa"
    unfolding unique_ids_def by (rule find_owned_first)
  have "balance_of d' i = Some (fl (balance sa - amount))"
    using assms(4) first
    by (simp add: d' balance_of_def account_by_id_def find_write_if_modified)
  moreover have "balance_of d' j = Some (fl (balance ra + amount))"
    using assms(4) receiver
    by (simp add: d' balance_of_def account_by_id_def find_write_if_modified)
  ultimately show ?thesis
    using first receiver owner enough by (simp add: account_by_id_def representable_def)
qed

theorem transfer_moves_amount_witness:
  "transfer all_up alice idA idB_upper 75 db0 =
     (successRes (TransferDocs (accountA\<lparr>balance := 25\<rparr>) (accountB\<lparr>balance := 95\<rparr>)),
      snd (transfer all_up alice idA idB_upper 75 db0)) \<and>
   balance_of db0 idA = Some 100 \<and> balance_of db0 idB = Some 20 \<and>
   balance_of (snd (transfer all_up alice idA idB_upper 75 db0)) idA = Some 25 \<and>
   balance_of (snd (transfer all_up alice idA idB_upper 75 db0)) idB = Some 95"
proof -
  have sender: "find (\<lambda>a. acc_id a = idA \<and> acc_userId a = alice) (accounts db0) = Some accountA"
    by (simp add: db0_def accountA_def)
  have receiver: "find (\<lambda>a. acc_id a = idB) (accounts db0) = Some accountB"
    using example_ids by (simp add: db0_def accountA_def accountB_def)
  have pos: "(0::rat) < 75" by simp
  have run: "transfer all_up alice idA idB_upper 75 db0 =
     (successRes (TransferDocs (accountA\<lparr>balance := 25\<rparr>) (accountB\<lparr>balance := 95\<rparr>)),
      snd (transfer all_up alice idA idB_upper 75 db0))"
    using transfer_found [OF example_casts(1) example_casts(4) example_amounts(2) pos
        sender receiver, of all_up] example_rounding
    by (simp add: all_up_def example_db0)
  have exact: "representable (100 - 75)" "representable (20 + 75)"
    using example_rounding by (simp_all add: representable_def)
  from transfer_moves_amount [OF run example_casts(1) example_casts(4) example_ids(1)
      example_db0(1)] exact
  show ?thesis using run by (auto simp: example_db0 balance_of_def)
qed

text \<open>
  C4. Every transfer that is answered with successRes appends exactly two transactions,
  both of type Transfer: first the sender's leg, with the negated amount, the sender's
  account id and the caller's user id, then the receiver's leg, with the amount, the
  receiver's account id and the user id of the receiver account's owner. The body of the
  response holds both accounts with their updated balances.
\<close>

theorem transfer_records_two_legs:
  assumes "transfer up userId accountId receiverAccountId amount d = (successRes body, d')"
    and "unique_ids d"
  shows "\<exists>i j sender receiver.
           castObjectId accountId = Some i \<and> castObjectId receiverAccountId = Some j \<and>
           account_by_id d i = Some sender \<and>
           account_by_id d j = Some receiver \<and>
           transactions d' = transactions d @
             [\<lparr>txn_userId = userId, txn_accountId = i,
               txn_type = Transfer, txn_amount = - amount\<rparr>,
              \<lparr>txn_userId = acc_userId receiver, txn_accountId = j,
               txn_type = Transfer, txn_amount = amount\<rparr>] \<and>
           body = TransferDocs (sender\<lparr>balance := fl (balance sender - amount)\<rparr>)
                               (receiver\<lparr>balance := fl (balance receiver + amount)\<rparr>)"
proof -
  from transfer_success_inv [OF assms(1)] obtain i j sa ra where
    i: "castObjectId accountId = Some i" and j: "castObjectId receiverAccountId = Some j"
    and sender: "find (\<lambda>a. acc_id a = i \<and> acc_userId a = userId) (accounts d) = Some sa"
    and receiver: "find (\<lambda>a. acc_id a = j) (accounts d) = Some ra"
    and body: "body = TransferDocs (sa\<lparr>balance := fl (balance sa - amount)\<rparr>)
                                   (ra\<lparr>balance := fl (balance ra + amount)\<rparr>)"
    and d': "d' = d\<lparr>accounts := write_if_modified j (balance ra) (fl (balance ra + amount))
                     (write_if_modified i (balance sa) (fl (balance sa - amount)) (accounts d)),
                  transactions := transactions d @
                    [\<lparr>txn_userId = userId, txn_accountId = i, txn_type = Transfer,
                      txn_amount = - amount\<rparr>,
                     \<lparr>txn_userId = acc_userId ra, txn_accountId = j,
                      txn_type = Transfer, txn_amount = amount\<rparr>]\<rparr>"
    by blast
  from assms(2) sender have "find (\<lambda>a. acc_id a = i) (accounts d) = Some sa"
    unfolding unique_ids_def by (rule find_owned_first)
  with i j receiver body show ?thesis by (simp add: d' account_by_id_def)
qed

theorem transfer_records_two_legs_witness:
  "transfer all_up alice idA idB 75 db0 =
     (successRes (TransferDocs (accountA\<lparr>balance := 25\<rparr>) (accountB\<lparr>balance := 95\<rparr>)),
      snd (transfer all_up alice idA idB 75 db0)) \<and>
   transactions (snd (transfer all_up alice idA idB 75 db0)) =
     [\<lparr>txn_userId = alice, txn_accountId = idA, txn_type = Transfer, txn_amount = - 75\<rparr>,
      \<lparr>txn_userId = bob, txn_accountId = idB, txn_type = Transfer, txn_amount = 75\<rparr>]"
proof -
  have sender: "find (\<lambda>a. acc_id a = idA \<and> acc_userId a = alice) (accounts db0) = Some accountA"
    by (simp add: db0_def accountA_def)
  have receiver: "find (\<lambda>a. acc_id a = idB) (accounts db0) = Some accountB"
    using example_ids by (simp add: db0_def accountA_def accountB_def)
  have pos: "(0::rat) < 75" by simp
  have run: "transfer all_up alice idA idB 75 db0 =
     (successRes (TransferDocs (accountA\<lparr>balance := 25\<rparr>) (accountB\<lparr>balance := 95\<rparr>)),
      snd (transfer all_up alice idA idB 75 db0))"
    using transfer_found [OF example_casts(1) example_casts(2) example_amounts(2) pos
        sender receiver, of all_up] example_rounding
    by (simp add: all_up_def example_db0)
  from transfer_records_two_legs [OF run example_db0(1)] run
  show ?thesis by (auto simp: example_db0 example_casts)
qed




section \<open>Failure between the two writes\<close>

text \<open>
  C9. For an existing account owned by the caller and a valid amount: when the save of
  the account returns and the save of the transaction throws, a deposit and a withdrawal
  are answered with the internal error (status 500), the new balance stays stored and
  the collection of transactions is as before. In a transfer to an existing receiver,
  when both accounts were saved and the save of the sender's leg throws, the answer is
  the internal error, the receiver's stored balance is credited, the sender's is debited
  and no transaction is recorded; when the save of the receiver's leg throws, only the
  sender's leg is recorded. (When sender and receiver are the same account, its stored
  balance is the credited one, or the debited one when the credit is absorbed by
  rounding and leaves the loaded balance as it was.)
\<close>

theorem balance_kept_when_record_fails:
  assumes "castObjectId accountId = Some i" and "isNumeric amount" and "0 < amount"
    and "account_by_id d i = Some a" and "acc_userId a = userId"
  shows "(up 0 \<and> up 1 \<and> \<not> up 2 \<longrightarrow>
            (\<exists>d'. deposit up userId accountId amount d = (internal_error, d') \<and>
                  balance_of d' i = Some (fl (balance a + amount)) \<and>
                  transactions d' = transactions d)) \<and>
         (amount \<le> balance a \<and> up 0 \<and> up 1 \<and> \<not> up 2 \<longrightarrow>
            (\<exists>d'. withdraw up userId accountId amount d = (internal_error, d') \<and>
                  balance_of d' i = Some (fl (balance a - amount)) \<and>
                  transactions d' = transactions d)) \<and>
         (\<forall>j b. amount \<le> balance a \<and> castObjectId receiverAccountId = Some j \<and>
              account_by_id d j = Some b \<and>
              up 0 \<and> up 1 \<and> up 2 \<and> up 3 \<and> \<not> (up 4 \<and> up 5) \<longrightarrow>
            (\<exists>d'. transfer up userId accountId receiverAccountId amount d = (internal_error, d') \<and>
                  balance_of d' j =
                    Some (if i = j \<and> fl (balance b + amount) = balance b
                          then fl (balance a - amount) else fl (balance b + amount)) \<and>
                  balance_of d' i =
                    Some (if i = j
                          then (if fl (balance a + amount) = balance a
                                then fl (balance a - amount) else fl (balance a + amount))
                          else fl (balance a - amount)) \<and>
                  transactions d' =
                    (if up 4
                     then transactions d @
                            [\<lparr>txn_userId = userId, txn_accountId = i,
                              txn_type = Transfer, txn_amount = - amount\<rparr>]
                     else transactions d))) \<and>
         status internal_error = 500"
proof -
  from assms(4) have by_id: "find (\<lambda>a. acc_id a = i) (accounts d) = Some a"
    by (simp add: account_by_id_def)
  from assms(4,5)
  have owned: "find (\<lambda>a. acc_id a = i \<and> acc_userId a = userId) (accounts d) = Some a"
    by (simp add: account_by_id_def find_first_owned)
  have dep: "up 0 \<and> up 1 \<and> \<not> up 2 \<longrightarrow>
            (\<exists>d'. deposit up userId accountId amount d = (internal_error, d') \<and>
                  balance_of d' i = Some (fl (balance a + amount)) \<and>
                  transactions d' = transactions d)"
    using deposit_found [OF assms(1,2,3) owned, of up] by_id
    by (simp add: balance_of_def account_by_id_def find_write_if_modified)
  have wd: "amount \<le> balance a \<and> up 0 \<and> up 1 \<and> \<not> up 2 \<longrightarrow>
            (\<exists>d'. withdraw up userId accountId amount d = (internal_error, d') \<and>
                  balance_of d' i = Some (fl (balance a - amount)) \<and>
                  transactions d' = transactions d)"
    using withdraw_found [OF assms(1,2,3) owned, of up] by_id
    by (simp add: balance_of_def account_by_id_def find_write_if_modified)
  have tr: "\<forall>j b. amount \<le> balance a \<and> castObjectId receiverAccountId = Some j \<and>
              account_by_id d j = Some b \<and>
              up 0 \<and> up 1 \<and> up 2 \<and> up 3 \<and> \<not> (up 4 \<and> up 5) \<longrightarrow>
            (\<exists>d'. transfer up userId accountId receiverAccountId amount d = (internal_error, d') \<and>
                  balance_of d' j =
                    Some (if i = j \<and> fl (balance b + amount) = balance b
                          then fl (balance a - amount) else fl (balance b + amount)) \<and>
                  balance_of d' i =
                    Some (if i = j
                          then (if fl (balance a + amount) = balance a
                                then fl (balance a - amount) else fl (balance a + amount))
                          else fl (balance a - amount)) \<and>
                  transactions d' =
                    (if up 4
                     then transactions d @
                            [\<lparr>txn_userId = userId, txn_accountId = i,
                              txn_type = Transfer, txn_amount = - amount\<rparr>]
                     else transactions d))"
  proof (intro allI impI)
    fix j b
    assume h: "amount \<le> balance a \<and> castObjectId receiverAccountId = Some j \<and>
              account_by_id d j = Some b \<and>
              up 0 \<and> up 1 \<and> up 2 \<and> up 3 \<and> \<not> (up 4 \<and> up 5)"
    then have receiver: "find (\<lambda>a. acc_id a = j) (accounts d) = Some b"
      by (simp add: account_by_id_def)
    from h have j: "castObjectId receiverAccountId = Some j" by simp
    show "\<exists>d'. transfer up userId accountId receiverAccountId amount d = (internal_error, d') \<and>
                  balance_of d' j =
                    Some (if i = j \<and> fl (balance b + amount) = balance b
                          then fl (balance a - amount) else fl (balance b + amount)) \<and>
                  balance_of d' i =
                    Some (if i = j
                          then (if fl (balance a + amount) = balance a
                                then fl (balance a - amount) else fl (balance a + amount))
                          else fl (balance a - amount)) \<and>
                  transactions d' =
                    (if up 4
                     then transactions d @
                            [\<lparr>txn_userId = userId, txn_accountId = i,
                              txn_type = Transfer, txn_amount = - amount\<rparr>]
                     else transactions d)"
      using transfer_found [OF assms(1) j assms(2,3) owned receiver, of up] h by_id receiver
      by (auto simp: balance_of_def account_by_id_def find_write_if_modified)
  qed
  from dep wd tr show ?thesis by (simp add: internal_error_def)
qed

theorem balance_kept_when_record_fails_witness:
  "(\<exists>d'. deposit (fails_at 2) alice idA 50 db0 = (internal_error, d') \<and>
         balance_of d' idA = Some 150 \<and> transactions d' = []) \<and>
   (\<exists>d'. withdraw (fails_at 2) alice idA 50 db0 = (internal_error, d') \<and>
         balance_of d' idA = Some 50 \<and> transactions d' = []) \<and>
   (\<exists>d'. transfer (fails_at 4) alice idA idB 75 db0 = (internal_error, d') \<and>
         balance_of d' idB = Some 95 \<and> balance_of d' idA = Some 25 \<and>
         transactions d' = []) \<and>
   (\<exists>d'. transfer (fails_at 5) alice idA idB 75 db0 = (internal_error, d') \<and>
         balance_of d' idB = Some 95 \<and> balance_of d' idA = Some 25 \<and>
         transactions d' = [\<lparr>txn_userId = alice, txn_accountId = idA,
                             txn_type = Transfer, txn_amount = - 75\<rparr>])"
proof -
  have p50: "(0::rat) < 50" and p75: "(0::rat) < 75" by simp_all
  note at2 = balance_kept_when_record_fails
    [where accountId = idA and i = idA and amount = 50 and d = db0 and a = accountA
       and userId = alice and up = "fails_at 2" and receiverAccountId = idB,
     OF example_casts(1) example_amounts(1) p50 example_db0(2) example_db0(5)]
  note at4 = balance_kept_when_record_fails
    [where accountId = idA and i = idA and amount = 75 and d = db0 and a = accountA
       and userId = alice and up = "fails_at 4" and receiverAccountId = idB,
     OF example_casts(1) example_amounts(2) p75 example_db0(2) example_db0(5)]
  note at5 = balance_kept_when_record_fails
    [where accountId = idA and i = idA and amount = 75 and d = db0 and a = accountA
       and userId = alice and up = "fails_at 5" and receiverAccountId = idB,
     OF example_casts(1) example_amounts(2) p75 example_db0(2) example_db0(5)]
  from at2 example_rounding have
    "\<exists>d'. deposit (fails_at 2) alice idA 50 db0 = (internal_error, d') \<and>
         balance_of d' idA = Some 150 \<and> transactions d' = []"
    by (simp add: fails_at_def example_db0)
  moreover from at2 example_rounding have
    "\<exists>d'. withdraw (fails_at 2) alice idA 50 db0 = (internal_error, d') \<and>
         balance_of d' idA = Some 50 \<and> transactions d' = []"
    by (simp add: fails_at_def example_db0)
  moreover from at4 example_ids example_rounding have
    "\<exists>d'. transfer (fails_at 4) alice idA idB 75 db0 = (internal_error, d') \<and>
         balance_of d' idB = Some 95 \<and> balance_of d' idA = Some 25 \<and>
         transactions d' = []"
    by (simp add: fails_at_def example_db0 example_casts)
  moreover from at5 example_ids example_rounding have
    "\<exists>d'. transfer (fails_at 5) alice idA idB 75 db0 = (internal_error, d') \<and>
         balance_of d' idB = Some 95 \<and> balance_of d' idA = Some 25 \<and>
         transactions d' = [\<lparr>txn_userId = alice, txn_accountId = idA,
                             txn_type = Transfer, txn_amount = - 75\<rparr>]"
    by (simp add: fails_at_def example_db0 example_casts)
  ultimately show ?thesis by simp
qed

section \<open>Deposit followed by withdrawal\<close>

lemma set_balance_twice:
  "set_balance i v (set_balance i w xs) = set_balance i v xs"
  by (induction xs) auto

lemma set_balance_same:
  "find (\<lambda>a. acc_id a = i) xs = Some a \<Longrightarrow> set_balance i (balance a) xs = xs"
  by (induction xs) (auto split: if_splits)

text \<open>
  C8, as stated, fails on the code. An account of the caller holds 0.1; the deposit of 0.2
  succeeds and stores the rounded sum, and the withdrawal of 0.2 that follows succeeds
  and leaves a balance that is greater than 0.1.
\<close>

theorem deposit_then_withdraw_counterexample:
  "balance_of db2 idA = Some tenth \<and> 0 \<le> tenth \<and> 0 < two_tenths \<and>
   is_success (fst (deposit all_up alice idA two_tenths db2)) \<and>
   is_success (fst (withdraw all_up alice idA two_tenths
                      (snd (deposit all_up alice idA two_tenths db2)))) \<and>
   balance_of (snd (withdraw all_up alice idA two_tenths
                      (snd (deposit all_up alice idA two_tenths db2)))) idA =
     Some (tenth + 1 / 2 ^ 55) \<and>
   tenth + 1 / 2 ^ 55 \<noteq> tenth"
proof -
  let ?sum = "fl (tenth + two_tenths)"
  let ?d1 = "db2\<lparr>accounts := [accountT\<lparr>balance := ?sum\<rparr>],
                 transactions := [\<lparr>txn_userId = alice, txn_accountId = idA,
                                   txn_type = Deposit, txn_amount = two_tenths\<rparr>]\<rparr>"
  have owned: "find (\<lambda>a. acc_id a = idA \<and> acc_userId a = alice) (accounts db2) = Some accountT"
    by (simp add: db2_def accountT_def)
  have grows: "?sum \<noteq> tenth" by code_simp
  have first: "deposit all_up alice idA two_tenths db2 =
      (successRes (AccountDoc (accountT\<lparr>balance := ?sum\<rparr>)), ?d1)"
    using deposit_found [OF example_casts(1) example_amounts(9) example_amounts(11) owned,
        of all_up] grows
    by (simp add: all_up_def write_if_modified_def accountT_def)
       (simp add: db2_def accountT_def)
  have owned1: "find (\<lambda>a. acc_id a = idA \<and> acc_userId a = alice) (accounts ?d1) =
      Some (accountT\<lparr>balance := ?sum\<rparr>)"
    by (simp add: accountT_def)
  have enough: "\<not> ?sum < two_tenths" by code_simp
  have rest: "fl (?sum - two_tenths) = tenth + 1 / 2 ^ 55" by code_simp
  have shrinks: "tenth + 1 / 2 ^ 55 \<noteq> ?sum" by code_simp
  have second: "withdraw all_up alice idA two_tenths ?d1 =
      (successRes (AccountDoc (accountT\<lparr>balance := tenth + 1 / 2 ^ 55\<rparr>)),
       ?d1\<lparr>accounts := [accountT\<lparr>balance := tenth + 1 / 2 ^ 55\<rparr>],
           transactions := transactions ?d1 @
             [\<lparr>txn_userId = alice, txn_accountId = idA, txn_type = Withdrawal,
               txn_amount = two_tenths\<rparr>]\<rparr>)"
    using withdraw_found [OF example_casts(1) example_amounts(9) example_amounts(11) owned1,
        of all_up] enough rest shrinks
    by (simp add: all_up_def write_if_modified_def accountT_def)
  have "balance_of db2 idA = Some tenth"
    by (simp add: balance_of_def account_by_id_def db2_def accountT_def)
  moreover have "0 \<le> tenth" "tenth + 1 / 2 ^ 55 \<noteq> tenth" by (code_simp+)
  moreover have "balance_of (snd (withdraw all_up alice idA two_tenths
                      (snd (deposit all_up alice idA two_tenths db2)))) idA =
     Some (tenth + 1 / 2 ^ 55)"
    unfolding first snd_conv second
    by (simp add: balance_of_def account_by_id_def accountT_def)
  moreover have "is_success (fst (deposit all_up alice idA two_tenths db2))"
    by (simp add: first)
  moreover have "is_success (fst (withdraw all_up alice idA two_tenths
                      (snd (deposit all_up alice idA two_tenths db2))))"
    unfolding first snd_conv second by simp
  ultimately show ?thesis
    using example_amounts(11) by blast
qed

text \<open>
  C8, amended. For an account owned by the caller, addressed by 24 hexadecimal digits,
  whose balance is a double of at least 0, and an amount that passes the validators
  (greater than 0, at least 1e-6 and less than 1e21), with the store answering every
  call: when the balance plus the amount is a double, so that the deposit does not round,
  the deposit of the amount succeeds, the withdrawal of the same amount from the
  resulting store succeeds too, and afterwards the stored balance is the original one;
  the whole collection of accounts is as it was before the deposit.
\<close>

theorem deposit_then_withdraw_restores:
  assumes "castObjectId accountId = Some i" and "isNumeric amount" and "0 < amount"
    and "account_by_id d i = Some a" and "acc_userId a = userId"
    and "0 \<le> balance a" and "representable (balance a)"
    and "representable (balance a + amount)"
    and "\<forall>k<3. up k" and "\<forall>k<3. upw k"
  shows "\<exists>body1 d1 body2 d2.
           deposit up userId accountId amount d = (successRes body1, d1) \<and>
           withdraw upw userId accountId amount d1 = (successRes body2, d2) \<and>
           balance_of d1 i = Some (balance a + amount) \<and>
           balance_of d2 i = Some (balance a) \<and>
           accounts d2 = accounts d"
proof -
  let ?a1 = "a\<lparr>balance := balance a + amount\<rparr>"
  let ?d1 = "d\<lparr>accounts := set_balance i (balance a + amount) (accounts d),
               transactions := transactions d @
                 [\<lparr>txn_userId = userId, txn_accountId = i,
                   txn_type = Deposit, txn_amount = amount\<rparr>]\<rparr>"
  from assms(9) have up: "up 0" "up 1" "up 2" by simp_all
  from assms(10) have upws: "upw 0" "upw 1" "upw 2" by simp_all
  from assms(8) have sum: "fl (balance a + amount) = balance a + amount"
    by (rule representable_fl)
  from assms(7) have diff: "fl (balance a + amount - amount) = balance a"
    by (simp add: representable_fl)
  from assms(4) have by_id: "find (\<lambda>a. acc_id a = i) (accounts d) = Some a"
    by (simp add: account_by_id_def)
  from assms(4,5)
  have owned: "find (\<lambda>a. acc_id a = i \<and> acc_userId a = userId) (accounts d) = Some a"
    by (simp add: account_by_id_def find_first_owned)
  have first: "deposit up userId accountId amount d = (successRes (AccountDoc ?a1), ?d1)"
    using deposit_found [OF assms(1,2,3) owned, of up] up sum assms(3)
    by (simp add: write_if_modified_def)
  have by_id1: "find (\<lambda>a. acc_id a = i) (accounts ?d1) = Some ?a1"
    using by_id by (simp add: find_set_balance)
  then have owned1:
    "find (\<lambda>a. acc_id a = i \<and> acc_userId a = userId) (accounts ?d1) = Some ?a1"
    using assms(5) by (intro find_first_owned) simp_all
  have second: "withdraw upw userId accountId amount ?d1 =
      (successRes (AccountDoc (?a1\<lparr>balance := balance a\<rparr>)),
       ?d1\<lparr>accounts := set_balance i (balance a) (accounts ?d1),
           transactions := transactions ?d1 @
             [\<lparr>txn_userId = userId, txn_accountId = i,
               txn_type = Withdrawal, txn_amount = amount\<rparr>]\<rparr>)"
    using withdraw_found [OF assms(1,2,3) owned1, of upw] upws assms(3,6) diff
    by (simp add: write_if_modified_def)
  have restored: "set_balance i (balance a) (accounts ?d1) = accounts d"
    using by_id by (simp add: set_balance_twice set_balance_same)
  have "balance_of ?d1 i = Some (balance a + amount)"
    using by_id1 by (simp add: balance_of_def account_by_id_def)
  moreover have "balance_of
      (?d1\<lparr>accounts := set_balance i (balance a) (accounts ?d1),
           transactions := transactions ?d1 @
             [\<lparr>txn_userId = userId, txn_accountId = i,
               txn_type = Withdrawal, txn_amount = amount\<rparr>]\<rparr>) i = Some (balance a)"
    using restored by_id by (simp add: balance_of_def account_by_id_def)
  ultimately show ?thesis using first second restored by simp
qed

theorem deposit_then_withdraw_restores_witness:
  "\<exists>body1 d1 body2 d2.
     deposit all_up alice idA 50 db0 = (successRes body1, d1) \<and>
     withdraw all_up alice idA 50 d1 = (successRes body2, d2) \<and>
     balance_of d1 idA = Some 150 \<and>
     balance_of d2 idA = Some 100 \<and>
     accounts d2 = accounts db0"
proof -
  have up: "\<forall>k<3. all_up k" by (simp add: all_up_def)
  have pos: "(0::rat) < 50" by simp
  have nonneg: "0 \<le> balance accountA" by (simp add: example_db0)
  have double: "representable (balance accountA)" "representable (balance accountA + 50)"
    using example_rounding by (simp_all add: representable_def example_db0)
  from deposit_then_withdraw_restores
    [where accountId = idA and i = idA and amount = 50 and d = db0 and a = accountA
       and userId = alice and up = all_up and upw = all_up,
     OF example_casts(1) example_amounts(1) pos example_db0(2) example_db0(5) nonneg
        double up up]
  show ?thesis by (simp add: example_db0)
qed

section \<open>Balances never go below zero\<close>

lemma solvent_write:
  assumes "solvent d i" and "j = i \<Longrightarrow> 0 \<le> v"
  shows "solvent (d\<lparr>accounts := write_if_modified j old v (accounts d)\<rparr>) i"
  using assms
  by (auto simp: solvent_def balance_of_def account_by_id_def find_write_if_modified
           split: option.splits)

lemma solvent_transactions [simp]:
  "solvent (d\<lparr>transactions := ts\<rparr>) i = solvent d i"
  by (simp add: solvent_def balance_of_def account_by_id_def)

lemma unique_ids_write [simp]:
  "unique_ids (d\<lparr>accounts := write_if_modified j old v (accounts d)\<rparr>) = unique_ids d"
  by (simp add: unique_ids_def map_acc_id_write_if_modified)

lemma unique_ids_transactions [simp]:
  "unique_ids (d\<lparr>transactions := ts\<rparr>) = unique_ids d"
  by (simp add: unique_ids_def)

lemma solvent_found:
  assumes "solvent d i" and "find (\<lambda>a. acc_id a = i) (accounts d) = Some a"
  shows "0 \<le> balance a"
  using assms by (simp add: solvent_def balance_of_def account_by_id_def)

lemma deposit_keeps_solvent:
  assumes "unique_ids d" and "solvent d i" and "deposit up u s x d = (r, d')"
  shows "unique_ids d' \<and> solvent d' i"
proof (cases "check_accountId s @ check_amount x = []")
  case False
  with assms show ?thesis by (auto simp: deposit_def Let_def)
next
  case True
  then have v: "isNumeric x" "0 < x" by (simp_all add: check_amount_valid)
  show ?thesis
  proof (cases "castObjectId s")
    case None
    with assms True show ?thesis
      by (auto simp: deposit_def Let_def Account_findOne_def)
  next
    case (Some j)
    note j = this
    show ?thesis
    proof (cases "find (\<lambda>a. acc_id a = j \<and> acc_userId a = u) (accounts d)")
      case None
      from deposit_not_found [OF j v this, of up] assms show ?thesis
        by (auto split: if_splits)
    next
      case (Some b)
      with assms(1) have by_id: "find (\<lambda>a. acc_id a = j) (accounts d) = Some b"
        unfolding unique_ids_def by (rule find_owned_first)
      have new: "j = i \<Longrightarrow> 0 \<le> fl (balance b + x)"
        using solvent_found [OF assms(2)] by_id v(2) by (intro fl_nonneg) auto
      from deposit_found [OF j v Some, of up] assms solvent_write [OF assms(2) new]
      show ?thesis by (auto split: if_splits)
    qed
  qed
qed

lemma withdraw_keeps_solvent:
  assumes "unique_ids d" and "solvent d i" and "withdraw up u s x d = (r, d')"
  shows "unique_ids d' \<and> solvent d' i"
proof (cases "check_accountId s @ check_amount x = []")
  case False
  with assms show ?thesis by (auto simp: withdraw_def Let_def)
next
  case True
  then have v: "isNumeric x" "0 < x" by (simp_all add: check_amount_valid)
  show ?thesis
  proof (cases "castObjectId s")
    case None
    with assms True show ?thesis
      by (auto simp: withdraw_def Let_def Account_findOne_def)
  next
    case (Some j)
    note j = this
    show ?thesis
    proof (cases "find (\<lambda>a. acc_id a = j \<and> acc_userId a = u) (accounts d)")
      case None
      from withdraw_not_found [OF j v this, of up] assms show ?thesis
        by (auto split: if_splits)
    next
      case (Some b)
      have new: "\<not> balance b < x \<Longrightarrow> j = i \<Longrightarrow> 0 \<le> fl (balance b - x)"
        by (intro fl_nonneg) simp
      from withdraw_found [OF j v Some, of up] assms
      show ?thesis
        by (auto split: if_splits intro: solvent_write [OF assms(2) new])
    qed
  qed
qed

lemma transfer_keeps_solvent:
  assumes "unique_ids d" and "solvent d i" and "transfer up u s t x d = (r, d')"
  shows "unique_ids d' \<and> solvent d' i"
proof (cases "castObjectId s = None \<or> castObjectId t = None")
  case True
  from transfer_uncastable(2) [OF this, of up u x d] assms show ?thesis by simp
next
  case False
  then obtain j k where j: "castObjectId s = Some j" and k: "castObjectId t = Some k"
    by auto
  show ?thesis
  proof (cases "check_amount x = []")
    case False
    with assms show ?thesis by (auto simp: transfer_def Let_def)
  next
    case True
    then have v: "isNumeric x" "0 < x" by (simp_all add: check_amount_valid)
    show ?thesis
    proof (cases "find (\<lambda>a. acc_id a = j \<and> acc_userId a = u) (accounts d)")
      case None
      from transfer_sender_missing [OF j k v this, of up] assms show ?thesis
        by (auto split: if_splits)
    next
      case (Some sa)
      note sender = this
      show ?thesis
      proof (cases "find (\<lambda>a. acc_id a = k) (accounts d)")
        case None
        from transfer_receiver_missing [OF j k v sender this, of up] assms show ?thesis
          by (auto split: if_splits)
      next
        case (Some ra)
        let ?d1 = "d\<lparr>accounts :=
                       write_if_modified j (balance sa) (fl (balance sa - x)) (accounts d)\<rparr>"
        let ?d2 = "d\<lparr>accounts := write_if_modified k (balance ra) (fl (balance ra + x))
                       (write_if_modified j (balance sa) (fl (balance sa - x)) (accounts d))\<rparr>"
        have debit_ok: "\<not> balance sa < x \<Longrightarrow> j = i \<Longrightarrow> 0 \<le> fl (balance sa - x)"
          by (intro fl_nonneg) simp
        have debit: "\<not> balance sa < x \<Longrightarrow> solvent ?d1 i"
          by (rule solvent_write [OF assms(2) debit_ok])
        have credit_ok: "k = i \<Longrightarrow> 0 \<le> fl (balance ra + x)"
          using solvent_found [OF assms(2)] Some v(2) by (intro fl_nonneg) auto
        have "\<not> balance sa < x \<Longrightarrow>
            solvent (?d1\<lparr>accounts :=
                        write_if_modified k (balance ra) (fl (balance ra + x)) (accounts ?d1)\<rparr>) i"
          by (rule solvent_write [OF debit credit_ok])
        then have credit: "\<not> balance sa < x \<Longrightarrow> solvent ?d2 i" by simp
        have unique: "unique_ids ?d2"
          using assms(1) by (simp add: unique_ids_def map_acc_id_write_if_modified)
        from transfer_found [OF j k v sender Some, of up] assms debit credit unique
        show ?thesis by (auto split: if_splits)
      qed
    qed
  qed
qed

lemma handle_keeps_solvent:
  assumes "unique_ids d" and "solvent d i" and "handle up rq d = (r, d')"
  shows "unique_ids d' \<and> solvent d' i"
  using assms
  by (cases rq)
     (auto dest: deposit_keeps_solvent withdraw_keeps_solvent transfer_keeps_solvent)

lemma run_keeps_solvent:
  "unique_ids d \<Longrightarrow> solvent d i \<Longrightarrow> run reqs d = (rs, d') \<Longrightarrow> unique_ids d' \<and> solvent d' i"
proof (induction reqs arbitrary: d rs)
  case Nil
  then show ?case by simp
next
  case (Cons q reqs)
  obtain up rq where q: "q = (up, rq)" by (cases q)
  obtain r d1 where step: "handle up rq d = (r, d1)" by (cases "handle up rq d")
  obtain rs1 d2 where rest: "run reqs d1 = (rs1, d2)" by (cases "run reqs d1")
  from Cons.prems(3) q step rest have "d' = d2" by simp
  moreover from handle_keeps_solvent [OF Cons.prems(1,2) step]
  have "unique_ids d1" "solvent d1 i" by simp_all
  ultimately show ?case using Cons.IH rest by blast
qed

text \<open>
  C2. In a store with unique ids, take an account whose balance is at least 0 and run any
  finite sequence of deposit, withdraw and transfer requests, one after the other, by any
  callers and on any accounts. If every request of the sequence is answered with
  successRes, the account still exists afterwards and its balance is at least 0. (The
  lemma before it shows that requests answered otherwise keep the balance at 0 or above
  as well.)
\<close>

theorem balance_stays_nonnegative:
  assumes "unique_ids d" and "solvent d i"
    and "run reqs d = (rs, d')" and "list_all is_success rs"
  shows "solvent d' i"
  using run_keeps_solvent [OF assms(1,2,3)] by simp

theorem balance_stays_nonnegative_witness:
  "run [(all_up, DepositReq alice idA 50), (all_up, TransferReq alice idA idB 75),
        (all_up, WithdrawReq alice idA 75)] db0 =
     ([successRes (AccountDoc (accountA\<lparr>balance := 150\<rparr>)),
       successRes (TransferDocs (accountA\<lparr>balance := 75\<rparr>) (accountB\<lparr>balance := 95\<rparr>)),
       successRes (AccountDoc (accountA\<lparr>balance := 0\<rparr>))],
      db0\<lparr>accounts := [accountA\<lparr>balance := 0\<rparr>, accountB\<lparr>balance := 95\<rparr>],
          transactions :=
            [\<lparr>txn_userId = alice, txn_accountId = idA, txn_type = Deposit, txn_amount = 50\<rparr>,
             \<lparr>txn_userId = alice, txn_accountId = idA, txn_type = Transfer,
              txn_amount = - 75\<rparr>,
             \<lparr>txn_userId = bob, txn_accountId = idB, txn_type = Transfer, txn_amount = 75\<rparr>,
             \<lparr>txn_userId = alice, txn_accountId = idA, txn_type = Withdrawal,
              txn_amount = 75\<rparr>]\<rparr>) \<and>
   solvent db0 idA \<and>
   solvent (db0\<lparr>accounts := [accountA\<lparr>balance := 0\<rparr>, accountB\<lparr>balance := 95\<rparr>],
          transactions :=
            [\<lparr>txn_userId = alice, txn_accountId = idA, txn_type = Deposit, txn_amount = 50\<rparr>,
             \<lparr>txn_userId = alice, txn_accountId = idA, txn_type = Transfer,
              txn_amount = - 75\<rparr>,
             \<lparr>txn_userId = bob, txn_accountId = idB, txn_type = Transfer, txn_amount = 75\<rparr>,
             \<lparr>txn_userId = alice, txn_accountId = idA, txn_type = Withdrawal,
              txn_amount = 75\<rparr>]\<rparr>) idA"
proof -
  have steps: "run [(all_up, DepositReq alice idA 50), (all_up, TransferReq alice idA idB 75),
        (all_up, WithdrawReq alice idA 75)] db0 =
     ([successRes (AccountDoc (accountA\<lparr>balance := 150\<rparr>)),
       successRes (TransferDocs (accountA\<lparr>balance := 75\<rparr>) (accountB\<lparr>balance := 95\<rparr>)),
       successRes (AccountDoc (accountA\<lparr>balance := 0\<rparr>))],
      db0\<lparr>accounts := [accountA\<lparr>balance := 0\<rparr>, accountB\<lparr>balance := 95\<rparr>],
          transactions :=
            [\<lparr>txn_userId = alice, txn_accountId = idA, txn_type = Deposit, txn_amount = 50\<rparr>,
             \<lparr>txn_userId = alice, txn_accountId = idA, txn_type = Transfer,
              txn_amount = - 75\<rparr>,
             \<lparr>txn_userId = bob, txn_accountId = idB, txn_type = Transfer, txn_amount = 75\<rparr>,
             \<lparr>txn_userId = alice, txn_accountId = idA, txn_type = Withdrawal,
              txn_amount = 75\<rparr>]\<rparr>)"
    using example_ids example_casts example_amounts example_rounding
    by (simp add: deposit_def withdraw_def transfer_def check_accountId_def check_amount_def
          check_receiverAccountId_def castObjectId_isMongoId Account_findOne_def
          Account_save_def write_if_modified_def Transaction_save_def all_up_def db0_def
          accountA_def accountB_def Let_def)
  have start: "solvent db0 idA"
    by (simp add: solvent_def balance_of_def example_db0)
  have all_ok: "list_all is_success
     [successRes (AccountDoc (accountA\<lparr>balance := 150\<rparr>)),
      successRes (TransferDocs (accountA\<lparr>balance := 75\<rparr>) (accountB\<lparr>balance := 95\<rparr>)),
      successRes (AccountDoc (accountA\<lparr>balance := 0\<rparr>))]"
    by simp
  from steps start balance_stays_nonnegative [OF example_db0(1) start steps all_ok]
  show ?thesis by (intro conjI)
qed

section \<open>Registration\<close>

lemma created_not_in_scope: "call users_js_scope ''createdRes'' body = Inl ReferenceError"
  by (simp add: call_def users_js_scope_def)

lemma register_valid_request:
  assumes "isEmail email" and "6 \<le> length password"
    and "find (\<lambda>u. usr_email u = email) (users d) = None"
    and "up 0" and "up 1"
  shows "register up isEmail random hash email password d =
           (internal_error,
            d\<lparr>users := users d @
               [\<lparr>usr_username = takeWhile (\<lambda>c. c \<noteq> CHR ''@'') email @
                                  decimal (randomSuffix random),
                 usr_email = email, usr_hashedPassword = hash password\<rparr>]\<rparr>)"
  using assms
  by (simp add: register_def register_try_def User_findOne_def User_save_def
        created_not_in_scope)

lemma register_never_created:
  "fst (register up isEmail random hash email password d) \<noteq> createdRes body"
  by (simp add: register_def register_try_def User_findOne_def User_save_def call_def
        users_js_scope_def internal_error_def Let_def split: option.splits)

text \<open>
  C7. A registration with a well-formed address, a password of seven characters and no
  user with that address in the store, with the store answering every call: the handler
  stores exactly one new user, whose name is the local part of the address followed by
  the three-digit suffix, and then answers with the internal error, of status 500, not
  with createdRes: \<^verbatim>\<open>createdRes\<close> is not among the names the module binds, so the
  call throws after the user was saved and the \<^verbatim>\<open>catch\<close> block answers.
\<close>

theorem register_valid_request_answers_500:
  "register all_up (\<lambda>s. CHR ''@'' \<in> set s) (1 / 2) (\<lambda>s. ''$2b$10$'' @ s)
       ''alice@example.com'' ''secret1'' db0 =
     (serverErrorRes (Message ''Internal server error''),
      db0\<lparr>users := [\<lparr>usr_username = ''alice550'', usr_email = ''alice@example.com'',
                       usr_hashedPassword = ''$2b$10$secret1''\<rparr>]\<rparr>) \<and>
   status (fst (register all_up (\<lambda>s. CHR ''@'' \<in> set s) (1 / 2) (\<lambda>s. ''$2b$10$'' @ s)
       ''alice@example.com'' ''secret1'' db0)) = 500"
  by (simp add: register_def register_try_def User_findOne_def User_save_def call_def
        users_js_scope_def randomSuffix_def decimal.simps all_up_def db0_def internal_error_def)

end
